theory Spec2Isabelle
  imports Complex_Main "HOL-Library.Log_Nat"
begin

section \<open>Python values\<close>

text \<open>
  A Python \<open>str\<close> is a sequence of Unicode code points, so it is modelled as a list of
  natural numbers (\<open>len\<close> is \<open>length\<close>, \<open>s[:k]\<close> is \<open>take k s\<close>); Python keeps every
  code point below \<open>0x110000\<close>, and admits lone surrogates. Python's unbounded integers
  are \<open>int\<close>. An exception is a value of \<open>error\<close>, and a function that may raise
  returns \<open>error + 'a\<close> with \<open>Inl\<close> for the exception.
\<close>

type_synonym pystr = "nat list"

definition py :: "string \<Rightarrow> pystr" where
  "py s = map of_char s"

datatype error =
    ValueError
  | UnicodeEncodeError
  | ZeroDivisionError
  | OverflowError
  | ChannelError
  | TransportError
  | KombuError
  | ObservabilityKombuError
  | ObservabilityConnectionError
  | FullObservabilityEventsBuffer pystr
  | OtherException pystr

text \<open>
  The class hierarchy of the exceptions, as far as the \<open>except\<close> clauses of the source
  look at it: \<open>UnicodeEncodeError\<close> is a subclass of \<open>ValueError\<close>; the three
  observability errors derive from \<open>ObservabilityError\<close> (\<open>__init__.py\<close>); kombu's
  \<open>ChannelError\<close> derives from \<open>KombuError\<close>. \<open>is_connection_error\<close> holds for the
  exceptions a kombu connection lists as its \<open>connection_errors\<close> and \<open>channel_errors\<close>:
  \<open>ChannelError\<close> is among them, and \<open>TransportError\<close> stands for the others (socket and
  transport errors). \<open>OtherException\<close> is any other subclass of \<open>Exception\<close>, with its
  class name.
\<close>

fun is_ValueError :: "error \<Rightarrow> bool" where
  "is_ValueError ValueError = True"
| "is_ValueError UnicodeEncodeError = True"
| "is_ValueError _ = False"

fun is_ObservabilityError :: "error \<Rightarrow> bool" where
  "is_ObservabilityError ObservabilityKombuError = True"
| "is_ObservabilityError ObservabilityConnectionError = True"
| "is_ObservabilityError (FullObservabilityEventsBuffer _) = True"
| "is_ObservabilityError _ = False"

fun is_KombuError :: "error \<Rightarrow> bool" where
  "is_KombuError KombuError = True"
| "is_KombuError ChannelError = True"
| "is_KombuError _ = False"

fun is_connection_error :: "error \<Rightarrow> bool" where
  "is_connection_error TransportError = True"
| "is_connection_error ChannelError = True"
| "is_connection_error _ = False"

subsection \<open>\<open>int / int\<close>: true division\<close>

text \<open>
  Python divides two integers into a \<open>float\<close>: the exact quotient rounded to the nearest
  double, ties to the even mantissa (CPython's \<open>long_true_divide\<close> rounds correctly).
  A zero divisor raises \<open>ZeroDivisionError\<close>, a rounded result beyond the doubles raises
  \<open>OverflowError\<close>, and a quotient below the doubles underflows to zero. The double is
  kept as the rational number it denotes. \<open>floor_log2 a b\<close> is the binary exponent of
  \<open>a / b\<close> for positive \<open>a\<close> and \<open>b\<close>; the mantissa has 53 bits, and the least
  exponent of a mantissa bit is \<open>-1074\<close>.
\<close>

definition round_half_even :: "int \<Rightarrow> int \<Rightarrow> int" where
  "round_half_even num den =
     (let q = num div den; r = num mod den
      in if 2 * r < den then q
         else if den < 2 * r then q + 1
         else if even q then q else q + 1)"

definition floor_log2 :: "int \<Rightarrow> int \<Rightarrow> int" where
  "floor_log2 a b =
     (let d = bitlen a - bitlen b
      in if b * 2 ^ nat d \<le> a * 2 ^ nat (- d) then d else d - 1)"

definition int_truediv :: "int \<Rightarrow> int \<Rightarrow> error + rat" where
  "int_truediv a b =
     (if b = 0 then Inl ZeroDivisionError
      else if a = 0 then Inr 0
      else
        (let e = floor_log2 \<bar>a\<bar> \<bar>b\<bar>;
             p = max (e - 52) (- 1074);
             m = round_half_even (\<bar>a\<bar> * 2 ^ nat (- p)) (\<bar>b\<bar> * 2 ^ nat p);
             y = of_int (m * 2 ^ nat p) / of_int (2 ^ nat (- p))
         in if 2 ^ 1024 \<le> y then Inl OverflowError
            else Inr (if (a < 0) = (b < 0) then y else - y)))"

subsection \<open>\<open>str.encode()\<close>: strict UTF-8\<close>

definition is_surrogate :: "nat \<Rightarrow> bool" where
  "is_surrogate c = (0xD800 \<le> c \<and> c \<le> 0xDFFF)"

definition encode_char :: "nat \<Rightarrow> error + nat list" where
  "encode_char c =
     (if c < 0x80 then Inr [c]
      else if c < 0x800 then Inr [0xC0 + c div 64, 0x80 + c mod 64]
      else if is_surrogate c then Inl UnicodeEncodeError
      else if c < 0x10000 then
        Inr [0xE0 + c div 4096, 0x80 + c div 64 mod 64, 0x80 + c mod 64]
      else
        Inr [0xF0 + c div 262144, 0x80 + c div 4096 mod 64, 0x80 + c div 64 mod 64,
             0x80 + c mod 64])"

fun encode :: "pystr \<Rightarrow> error + nat list" where
  "encode [] = Inr []"
| "encode (c # cs) =
     (case encode_char c of
        Inl e \<Rightarrow> Inl e
      | Inr bs \<Rightarrow> (case encode cs of Inl e \<Rightarrow> Inl e | Inr bs' \<Rightarrow> Inr (bs @ bs')))"

section \<open>The tables of \<open>json.encoder\<close>\<close>

text \<open>
  \<open>utils.py\<close> imports \<open>ESCAPE_ASCII\<close> and \<open>ESCAPE_DCT\<close> from the standard library's
  \<open>json.encoder\<close>. \<open>ESCAPE_ASCII\<close> is the regular expression
  \<^verbatim>\<open>([\\"]|[^\ -~])\<close>: it matches one character, a backslash, a double quote or
  anything outside the printable ASCII range. \<open>ESCAPE_DCT\<close> maps backslash, quote,
  \<open>\b \f \n \r \t\<close> to their two-character escapes, and every other character
  below \<open>0x20\<close> to \<^verbatim>\<open>\u00XX\<close>. \<open>ESCAPE\<close> is the expression of the encoder that does not
  force ASCII: it matches the keys of \<open>ESCAPE_DCT\<close>.
\<close>

definition hex_digit :: "nat \<Rightarrow> nat" where
  "hex_digit d = (if d < 10 then 48 + d else 87 + d)"

definition hex4 :: "nat \<Rightarrow> pystr" where
  "hex4 n = [hex_digit (n div 4096 mod 16), hex_digit (n div 256 mod 16),
             hex_digit (n div 16 mod 16), hex_digit (n mod 16)]"

definition ESCAPE_ASCII :: "nat \<Rightarrow> bool" where
  "ESCAPE_ASCII c = (c = 92 \<or> c = 34 \<or> \<not> (32 \<le> c \<and> c \<le> 126))"

definition ESCAPE :: "nat \<Rightarrow> bool" where
  "ESCAPE c = (c < 32 \<or> c = 92 \<or> c = 34)"

definition ESCAPE_DCT :: "nat \<Rightarrow> pystr option" where
  "ESCAPE_DCT c =
     (if c = 92 then Some [92, 92]
      else if c = 34 then Some [92, 34]
      else if c = 8 then Some [92, 98]
      else if c = 12 then Some [92, 102]
      else if c = 10 then Some [92, 110]
      else if c = 13 then Some [92, 114]
      else if c = 9 then Some [92, 116]
      else if c < 32 then Some ([92, 117] @ hex4 c)
      else None)"

text \<open>
  The two string encoders of \<open>json.encoder\<close>, without the surrounding quotes:
  \<open>py_encode_basestring_ascii\<close> replaces every match of \<open>ESCAPE_ASCII\<close> (by its entry
  of \<open>ESCAPE_DCT\<close>, else by \<^verbatim>\<open>\uXXXX\<close>, a surrogate pair beyond the BMP), and
  \<open>py_encode_basestring\<close> replaces every match of \<open>ESCAPE\<close> by its entry.
\<close>

definition replace_ascii :: "nat \<Rightarrow> pystr" where
  "replace_ascii c =
     (case ESCAPE_DCT c of
        Some e \<Rightarrow> e
      | None \<Rightarrow>
          if c < 0x10000 then [92, 117] @ hex4 c
          else [92, 117] @ hex4 (0xD800 + (c - 0x10000) div 1024 mod 1024) @
               [92, 117] @ hex4 (0xDC00 + (c - 0x10000) mod 1024))"

definition escape_ascii_body :: "pystr \<Rightarrow> pystr" where
  "escape_ascii_body s = concat (map (\<lambda>c. if ESCAPE_ASCII c then replace_ascii c else [c]) s)"

definition escape_body :: "pystr \<Rightarrow> pystr" where
  "escape_body s =
     concat (map (\<lambda>c. if ESCAPE c then (case ESCAPE_DCT c of Some e \<Rightarrow> e | None \<Rightarrow> [c])
                       else [c]) s)"

definition py_encode_basestring_ascii :: "pystr \<Rightarrow> pystr" where
  "py_encode_basestring_ascii s = [34] @ escape_ascii_body s @ [34]"

definition py_encode_basestring :: "pystr \<Rightarrow> pystr" where
  "py_encode_basestring s = [34] @ escape_body s @ [34]"

text \<open>
  The bytes a text occupies inside a JSON document written with the given
  \<open>ensure_ascii\<close> mode: the escaped text, encoded as UTF-8.
\<close>

definition json_text_bytes :: "bool \<Rightarrow> pystr \<Rightarrow> error + nat list" where
  "json_text_bytes ensure_ascii_mode s =
     encode (if ensure_ascii_mode then escape_ascii_body s else escape_body s)"

section \<open>The data model\<close>

text \<open>
  The classes of the source, as records. They are declared together, before the
  functions, in the order of their dependencies.
\<close>

subsection \<open>\<open>utils.py\<close>: \<open>JsonTruncText\<close>\<close>

text \<open>
  The dataclass keeps \<open>text\<close> and \<open>truncated\<close>, and \<open>__post_init__\<close> stores the two
  init-only arguments as \<open>_added_bytes\<close> and \<open>_ensure_ascii\<close>.
\<close>

record JsonTruncText =
  text' :: pystr
  truncated :: bool
  added_bytes :: int
  ensure_ascii :: bool

subsection \<open>The values \<open>json.dumps\<close> writes\<close>

text \<open>
  The Python values the payloads are built from, as \<open>json.dumps\<close> sees them: \<open>None\<close>,
  a \<open>bool\<close>, an \<open>int\<close>, a \<open>float\<close> (kept as the text of its \<open>repr\<close>, which the model
  does not compute), a \<open>str\<close>, a \<open>list\<close>, a \<open>dict\<close> with string keys in insertion
  order, and a \<open>JsonTruncText\<close> object.
\<close>

datatype json =
    JNull
  | JBool bool
  | JInt int
  | JFloat pystr
  | JStr pystr
  | JList "json list"
  | JDict "(pystr \<times> json) list"
  | JTruncText JsonTruncText

subsection \<open>\<open>__init__.py\<close>: the captured records\<close>

text \<open>
  A \<open>GraphQLDocument\<close> is an object of the graphql library. The model keeps its
  \<open>document_string\<close>, and its \<open>document_ast\<close> as what the library's
  \<open>get_operation_ast\<close> finds in it: for an operation name, the \<open>operation\<close> attribute
  (\<open>query\<close>, \<open>mutation\<close> or \<open>subscription\<close>) of the definition found, if any.
\<close>

record GraphQLDocument =
  document_string :: pystr
  document_ast :: "pystr option \<Rightarrow> pystr option"

record GQLOperationResult =
  name :: "pystr option"
  query :: "GraphQLDocument option"
  variables :: "(pystr \<times> json) list option"
  result :: "(pystr \<times> json) list option"

text \<open>
  Of a request, \<open>generate_api_call_payload\<close> reads the dictionary \<open>request_payload\<close>
  (identifier, method, URL, time, headers with the sensitive ones hidden, content length)
  and, when the request has an \<open>app\<close>, the dictionary \<open>app_payload\<close>; of a response it
  reads the dictionary \<open>response_payload\<close>. Reading them can raise (a \<open>Content-Length\<close>
  that is no number, for one), so each is the dictionary or the exception.
\<close>

record HttpRequest =
  request_payload :: "error + json"
  app :: "json option"

record HttpResponse =
  response_payload :: "error + json"

record ApiCallResponse =
  request :: "HttpRequest option"
  response :: "HttpResponse option"
  queries :: "GQLOperationResult list"

text \<open>
  The delivery attempt, as far as \<open>generate_truncated_event_delivery_attempt_payload\<close>
  reads it. Of the delivery: the entries \<open>id\<close>, \<open>status\<close> and \<open>type\<close> of
  \<open>delivery_data\<close>, the text \<open>delivery.payload.payload\<close> when the delivery has a payload,
  and, when it has a webhook, the dictionaries \<open>app_data\<close> and \<open>webhook_data\<close>. Of the
  attempt: the dictionary under \<open>eventDeliveryAttempt\<close> (which holds \<open>nextRetry\<close>), the
  request and response headers as \<open>json.loads\<close> returns them (or the exception it raises),
  and the response text \<open>attempt.response\<close>.
\<close>

record EventDelivery =
  delivery_fields :: "(pystr \<times> json) list"
  payload :: "pystr option"
  webhook :: "(json \<times> json) option"

record EventDeliveryAttempt =
  attempt_data :: json
  request_headers :: "error + json"
  response_headers :: "error + json"
  response' :: "pystr option"
  delivery :: "EventDelivery option"

subsection \<open>Settings, the buffer and the broker\<close>

record Settings =
  OBSERVABILITY_ACTIVE :: bool
  OBSERVABILITY_REPORT_ALL_API_CALLS :: bool
  OBSERVABILITY_MAX_PAYLOAD_SIZE :: int
  OBSERVABILITY_BUFFER_BATCH :: int
  OBSERVABILITY_BUFFER_SIZE_LIMIT :: int

record ObservabilityBuffer =
  queue_name :: pystr
  event_type :: pystr
  batch :: int
  max_length :: int

text \<open>
  The broker behind the kombu connection: the messages of every declared queue, oldest
  first (no entry for a queue that does not exist), and the exception its next publish
  raises, if any.
\<close>

record Broker =
  queues :: "pystr \<Rightarrow> pystr list option"
  fault :: "error option"

datatype log_level = INFO | WARN

section \<open>\<open>utils.py\<close>: \<open>JsonTruncText.truncate\<close>\<close>

definition byte_size :: "JsonTruncText \<Rightarrow> int" where
  "byte_size t = int (length (text' t)) + added_bytes t"

definition json_char_len :: "nat \<Rightarrow> bool \<Rightarrow> error + int" where
  "json_char_len char ea =
     (case ESCAPE_DCT char of
        Some e \<Rightarrow> Inr (int (length e))
      | None \<Rightarrow>
          if ea then Inr (if char < 0x10000 then 6 else 12)
          else (case encode [char] of Inl err \<Rightarrow> Inl err | Inr bs \<Rightarrow> Inr (int (length bs))))"

text \<open>
  \<open>ESCAPE_ASCII.finditer(s)\<close>: the matches from left to right, each with its span
  \<open>(start, end)\<close> and its text \<open>group(0)\<close>, which is one character.
\<close>

fun finditer_from :: "nat \<Rightarrow> pystr \<Rightarrow> (nat \<times> nat \<times> nat) list" where
  "finditer_from i [] = []"
| "finditer_from i (c # cs) =
     (if ESCAPE_ASCII c then (i, i + 1, c) # finditer_from (i + 1) cs
      else finditer_from (i + 1) cs)"

definition finditer :: "pystr \<Rightarrow> (nat \<times> nat \<times> nat) list" where
  "finditer s = finditer_from 0 s"

text \<open>The \<open>for\<close> loop of \<open>truncate\<close> over the matches, with its two early returns.\<close>

fun truncate_loop ::
  "bool \<Rightarrow> int \<Rightarrow> nat \<Rightarrow> pystr \<Rightarrow> int \<Rightarrow> (nat \<times> nat \<times> nat) list \<Rightarrow> error + JsonTruncText"
where
  "truncate_loop ea limit s_init_len s added [] =
     Inr \<lparr>text' = s, truncated = (length s < s_init_len), added_bytes = added,
          ensure_ascii = ea\<rparr>"
| "truncate_loop ea limit s_init_len s added ((start, stop, grp) # matches) =
     (case json_char_len grp ea of
        Inl err \<Rightarrow> Inl err
      | Inr n \<Rightarrow>
          (let markup = n - 1;
               added_new = added + markup
           in if int stop + added_new > limit then
                Inr \<lparr>text' = take start s, truncated = True,
                     added_bytes = added_new - markup, ensure_ascii = ea\<rparr>
              else if int stop + added_new = limit then
                Inr \<lparr>text' = take stop s, truncated = (length (take stop s) < s_init_len),
                     added_bytes = added_new, ensure_ascii = ea\<rparr>
              else truncate_loop ea limit s_init_len s added_new matches))"

definition truncate :: "pystr \<Rightarrow> int \<Rightarrow> bool \<Rightarrow> error + JsonTruncText" where
  "truncate s limit ea =
     (let limit0 = max limit 0;
          s_init_len = length s;
          s0 = take (nat limit0) s
      in truncate_loop ea limit0 s_init_len s0 0 (finditer s0))"

section \<open>\<open>json.dumps\<close>\<close>

function nat_repr :: "nat \<Rightarrow> pystr" where
  "nat_repr n = (if n < 10 then [48 + n] else nat_repr (n div 10) @ [48 + n mod 10])"
  by pat_completeness auto
termination
  by (relation "measure id") auto

declare nat_repr.simps [simp del]

definition int_repr :: "int \<Rightarrow> pystr" where
  "int_repr i = (if i < 0 then 45 # nat_repr (nat (- i)) else nat_repr (nat i))"

fun join :: "pystr \<Rightarrow> pystr list \<Rightarrow> pystr" where
  "join sep [] = []"
| "join sep [x] = x"
| "join sep (x # y # ys) = x @ sep @ join sep (y # ys)"

definition dumps_bool :: "bool \<Rightarrow> pystr" where
  "dumps_bool b = (if b then py ''true'' else py ''false'')"

definition dumps_dict :: "(pystr \<times> pystr) list \<Rightarrow> pystr" where
  "dumps_dict items =
     py ''{'' @ join (py '', '') (map (\<lambda>(k, v). py_encode_basestring_ascii k @ py '': '' @ v) items)
     @ py ''}''"

text \<open>
  \<open>CustomJsonEncoder.default\<close> turns a \<open>JsonTruncText\<close> into the dictionary of its text
  and its flag. \<open>json_dumps\<close> is \<open>json.dumps(obj, ensure_ascii=True,
  cls=CustomJsonEncoder)\<close> with the default separators; its equation for a
  \<open>JsonTruncText\<close> writes that dictionary (lemma \<open>json_dumps_JsonTruncText\<close>).
\<close>

definition CustomJsonEncoder_default :: "JsonTruncText \<Rightarrow> json" where
  "CustomJsonEncoder_default t =
     JDict [(py ''text'', JStr (text' t)), (py ''truncated'', JBool (truncated t))]"

fun json_dumps :: "json \<Rightarrow> pystr" where
  "json_dumps JNull = py ''null''"
| "json_dumps (JBool b) = dumps_bool b"
| "json_dumps (JInt i) = int_repr i"
| "json_dumps (JFloat r) = r"
| "json_dumps (JStr s) = py_encode_basestring_ascii s"
| "json_dumps (JList xs) = py ''['' @ join (py '', '') (map json_dumps xs) @ py '']''"
| "json_dumps (JDict kvs) = dumps_dict (map (\<lambda>(k, v). (k, json_dumps v)) kvs)"
| "json_dumps (JTruncText t) =
     dumps_dict [(py ''text'', py_encode_basestring_ascii (text' t)),
                 (py ''truncated'', dumps_bool (truncated t))]"

section \<open>\<open>payloads.py\<close>\<close>

definition get_operation_ast ::
  "(pystr option \<Rightarrow> pystr option) \<Rightarrow> pystr option \<Rightarrow> pystr option" where
  "get_operation_ast ast operation_name = ast operation_name"

definition TRUNC_PLACEHOLDER :: JsonTruncText where
  "TRUNC_PLACEHOLDER = \<lparr>text' = [], truncated = False, added_bytes = 0, ensure_ascii = True\<rparr>"

definition EMPTY_TRUNC :: JsonTruncText where
  "EMPTY_TRUNC = \<lparr>text' = [], truncated = True, added_bytes = 0, ensure_ascii = True\<rparr>"

definition GQL_OPERATION_PLACEHOLDER :: json where
  "GQL_OPERATION_PLACEHOLDER =
     JDict [(py ''name'', JTruncText TRUNC_PLACEHOLDER),
            (py ''operation_type'', JStr (py ''subscription'')),
            (py ''query'', JTruncText TRUNC_PLACEHOLDER),
            (py ''result'', JTruncText TRUNC_PLACEHOLDER)]"

definition GQL_OPERATION_PLACEHOLDER_SIZE :: int where
  "GQL_OPERATION_PLACEHOLDER_SIZE = int (length (json_dumps GQL_OPERATION_PLACEHOLDER))"

text \<open>Sequencing of calls that may raise: the first exception ends the computation.\<close>

definition bind :: "error + 'a \<Rightarrow> ('a \<Rightarrow> error + 'b) \<Rightarrow> error + 'b" where
  "bind m f = (case m of Inl e \<Rightarrow> Inl e | Inr x \<Rightarrow> f x)"

text \<open>
  \<open>serialize_gql_operation_result\<close>. The payload is the dictionary the source returns;
  an absent field is \<open>None\<close>. \<open>if operation.name\<close> holds for a non-empty string,
  \<open>if operation.query\<close> for a document, \<open>if operation.result\<close> for a non-empty
  dictionary. \<open>truncate\<close> is called with its default \<open>ensure_ascii=True\<close>.
\<close>

definition serialize_gql_operation_result ::
  "GQLOperationResult \<Rightarrow> int \<Rightarrow> error + (json \<times> int)" where
  "serialize_gql_operation_result operation bytes_limit =
     (let bytes_limit = bytes_limit - GQL_OPERATION_PLACEHOLDER_SIZE in
      if bytes_limit < 0 then Inl ValueError
      else
        bind (case name operation of
                Some nm \<Rightarrow>
                  if nm \<noteq> [] then
                    bind (truncate nm (bytes_limit div 3) True)
                      (\<lambda>t. Inr (JTruncText t, bytes_limit - byte_size t))
                  else Inr (JNull, bytes_limit)
              | None \<Rightarrow> Inr (JNull, bytes_limit))
        (\<lambda>(name_v, bytes_limit).
        bind (case query operation of
                Some q \<Rightarrow>
                  bind (truncate (document_string q) (bytes_limit div 2) True)
                    (\<lambda>t. Inr (JTruncText t,
                             (case get_operation_ast (document_ast q) (name operation) of
                                Some definition_operation \<Rightarrow> JStr definition_operation
                              | None \<Rightarrow> JNull),
                             bytes_limit - byte_size t))
              | None \<Rightarrow> Inr (JNull, JNull, bytes_limit))
        (\<lambda>(query_v, operation_type, bytes_limit).
        bind (case result operation of
                Some res \<Rightarrow>
                  if res \<noteq> [] then
                    bind (truncate (json_dumps (JDict res)) bytes_limit True)
                      (\<lambda>t. Inr (JTruncText t, bytes_limit - byte_size t))
                  else Inr (JNull, bytes_limit)
              | None \<Rightarrow> Inr (JNull, bytes_limit))
        (\<lambda>(result_v, bytes_limit).
          Inr (JDict [(py ''name'', name_v),
                      (py ''operation_type'', operation_type),
                      (py ''query'', query_v),
                      (py ''result'', result_v)],
               max 0 bytes_limit)))))"

text \<open>
  The loop of \<open>serialize_gql_operation_results\<close> over \<open>enumerate(operations)\<close>; its state
  is the list \<open>payloads\<close> and the running \<open>bytes_limit\<close>, and \<open>n\<close> is
  \<open>len(operations)\<close>.
\<close>

fun results_loop ::
  "nat \<Rightarrow> (nat \<times> GQLOperationResult) list \<Rightarrow> json list \<Rightarrow> int \<Rightarrow> error + (json list \<times> int)"
where
  "results_loop n [] payloads bytes_limit = Inr (payloads, bytes_limit)"
| "results_loop n ((i, operation) # rest) payloads bytes_limit =
     (let payload_limit = bytes_limit div (int n - int i) in
      case serialize_gql_operation_result operation payload_limit of
        Inl e \<Rightarrow> Inl e
      | Inr (payload_v, left_bytes) \<Rightarrow>
          results_loop n rest (payloads @ [payload_v])
            (bytes_limit - (payload_limit - left_bytes)))"

definition serialize_gql_operation_results ::
  "GQLOperationResult list \<Rightarrow> int \<Rightarrow> error + json list" where
  "serialize_gql_operation_results operations bytes_limit =
     (if bytes_limit - int (length operations) * GQL_OPERATION_PLACEHOLDER_SIZE < 0 then
        Inl ValueError
      else
        bind (results_loop (length operations) (enumerate 0 operations) [] bytes_limit)
          (\<lambda>(payloads, bytes_limit). Inr payloads))"

text \<open>
  \<open>api_call_payload\<close> is the dictionary \<open>payload\<close> of \<open>generate_api_call_payload\<close> with
  the given list under \<open>operations\<close>; \<open>count\<close> is \<open>len(gql_operations)\<close>.
\<close>

definition api_call_payload :: "json \<Rightarrow> json \<Rightarrow> json \<Rightarrow> nat \<Rightarrow> json list \<Rightarrow> json" where
  "api_call_payload request_payload_v response_payload_v app_payload_v count operations =
     JDict [(py ''request'', request_payload_v),
            (py ''response'', response_payload_v),
            (py ''app'', app_payload_v),
            (py ''gql_operations'',
               JDict [(py ''count'', JInt (int count)), (py ''operations'', JList operations)])]"

definition generate_api_call_payload ::
  "HttpRequest \<Rightarrow> HttpResponse \<Rightarrow> GQLOperationResult list \<Rightarrow> int \<Rightarrow> error + pystr" where
  "generate_api_call_payload req resp gql_operations bytes_limit =
     bind (request_payload req) (\<lambda>request_payload_v.
     bind (response_payload resp) (\<lambda>response_payload_v.
       let app_payload_v = (case app req of Some a \<Rightarrow> a | None \<Rightarrow> JNull);
           payload_v = api_call_payload request_payload_v response_payload_v app_payload_v
                         (length gql_operations);
           base_dump = json_dumps (payload_v []);
           remaining_bytes = bytes_limit - int (length base_dump)
       in if remaining_bytes < 0 then Inl ValueError
          else
            (case serialize_gql_operation_results gql_operations remaining_bytes of
               Inl e \<Rightarrow> if is_ValueError e then Inr (json_dumps (payload_v [])) else Inl e
             | Inr operations \<Rightarrow> Inr (json_dumps (payload_v operations)))))"

text \<open>
  \<open>delivery_attempt_data\<close> is the dictionary \<open>data\<close> of
  \<open>generate_truncated_event_delivery_attempt_payload\<close> for the given content length of
  the response and the given values under the two \<open>body\<close> keys.
\<close>

definition delivery_attempt_data ::
  "EventDeliveryAttempt \<Rightarrow> json \<Rightarrow> json \<Rightarrow> int \<Rightarrow> json \<Rightarrow> json \<Rightarrow> json" where
  "delivery_attempt_data attempt request_headers_v response_headers_v response_length
       response_body_v payload_body_v =
     (let payload_text = (case delivery attempt of Some d \<Rightarrow> payload d | None \<Rightarrow> None);
          delivery_data =
            (case delivery attempt of
               Some d \<Rightarrow>
                 JDict (delivery_fields d @
                   [(py ''payload'',
                       JDict [(py ''contentLength'',
                                 JInt (int (length (case payload_text of Some p \<Rightarrow> p
                                                                      | None \<Rightarrow> [])))),
                              (py ''body'', payload_body_v)])])
             | None \<Rightarrow> JDict []);
          app_data =
            (case delivery attempt of
               Some d \<Rightarrow> (case webhook d of Some (a, w) \<Rightarrow> a | None \<Rightarrow> JDict [])
             | None \<Rightarrow> JDict []);
          webhook_data =
            (case delivery attempt of
               Some d \<Rightarrow> (case webhook d of Some (a, w) \<Rightarrow> w | None \<Rightarrow> JDict [])
             | None \<Rightarrow> JDict [])
      in JDict [(py ''eventDeliveryAttempt'', attempt_data attempt),
                (py ''request'', JDict [(py ''headers'', request_headers_v)]),
                (py ''response'',
                   JDict [(py ''headers'', response_headers_v),
                          (py ''contentLength'', JInt response_length),
                          (py ''body'', response_body_v)]),
                (py ''eventDelivery'', delivery_data),
                (py ''webhook'', webhook_data),
                (py ''app'', app_data)])"

definition generate_truncated_event_delivery_attempt_payload ::
  "Settings \<Rightarrow> EventDeliveryAttempt \<Rightarrow> int option \<Rightarrow> error + pystr" where
  "generate_truncated_event_delivery_attempt_payload settings attempt bytes_limit_opt =
     (let bytes_limit = (case bytes_limit_opt of
                           None \<Rightarrow> OBSERVABILITY_MAX_PAYLOAD_SIZE settings
                         | Some b \<Rightarrow> b);
          payload_text = (case delivery attempt of Some d \<Rightarrow> payload d | None \<Rightarrow> None);
          response_body = (case response' attempt of Some r \<Rightarrow> r | None \<Rightarrow> [])
      in bind (request_headers attempt) (\<lambda>request_headers_v.
         bind (response_headers attempt) (\<lambda>response_headers_v.
         bind (encode response_body) (\<lambda>response_bytes.
           let data = delivery_attempt_data attempt request_headers_v response_headers_v
                        (int (length response_bytes));
               initial_dump = json_dumps (data (JTruncText TRUNC_PLACEHOLDER)
                                               (JTruncText TRUNC_PLACEHOLDER));
               remaining_bytes = bytes_limit - int (length initial_dump)
           in if remaining_bytes < 0 then Inl ValueError
              else
                bind (truncate response_body (remaining_bytes div 2) True)
                (\<lambda>response_body_t.
                  case payload_text of
                    Some p \<Rightarrow>
                      bind (truncate p (remaining_bytes - byte_size response_body_t) True)
                        (\<lambda>payload_t.
                          Inr (json_dumps (data (JTruncText response_body_t)
                                                (JTruncText payload_t))))
                  | None \<Rightarrow>
                      Inr (json_dumps (data (JTruncText response_body_t)
                                            (JTruncText TRUNC_PLACEHOLDER))))))))"

section \<open>\<open>buffer.py\<close>\<close>

definition CACHE_KEY :: pystr where
  "CACHE_KEY = py ''buffer_''"

text \<open>
  \<open>event_types.py\<close> is not among the sources. \<open>WebhookEventAsyncType\<close> names the two
  observability event types, and \<open>OBSERVABILITY_EVENTS\<close> lists them: the allow-list of
  supported event types of the specification.
\<close>

definition OBSERVABILITY_API_CALLS :: pystr where
  "OBSERVABILITY_API_CALLS = py ''observability_api_calls''"

definition OBSERVABILITY_EVENT_DELIVERY_ATTEMPTS :: pystr where
  "OBSERVABILITY_EVENT_DELIVERY_ATTEMPTS = py ''observability_event_delivery_attempts''"

definition OBSERVABILITY_EVENTS :: "pystr list" where
  "OBSERVABILITY_EVENTS = [OBSERVABILITY_API_CALLS, OBSERVABILITY_EVENT_DELIVERY_ATTEMPTS]"

text \<open>
  \<open>ObservabilityBuffer.__init__\<close>; \<open>make_key\<close> is the cache's key function
  (\<open>cache.make_key\<close>), which depends on the cache configuration.
\<close>

definition ObservabilityBuffer_init ::
  "(pystr \<Rightarrow> pystr) \<Rightarrow> pystr \<Rightarrow> int \<Rightarrow> int \<Rightarrow> ObservabilityBuffer" where
  "ObservabilityBuffer_init make_key event_type_v batch_v max_length_v =
     \<lparr>queue_name = make_key (CACHE_KEY @ event_type_v), event_type = event_type_v,
      batch = max 0 batch_v, max_length = max 0 max_length_v\<rparr>"

text \<open>
  kombu's \<open>SimpleQueue.qsize\<close> declares the queue passively: the broker answers with the
  number of messages, and with \<open>ChannelError\<close> for a queue that does not exist.
  \<open>SimpleQueue.put\<close> publishes one message to the queue (declaring it first), unless the
  broker fails.
\<close>

definition SimpleQueue_qsize :: "Broker \<Rightarrow> pystr \<Rightarrow> error + int" where
  "SimpleQueue_qsize broker qn =
     (case queues broker qn of
        None \<Rightarrow> Inl ChannelError
      | Some msgs \<Rightarrow> Inr (int (length msgs)))"

definition SimpleQueue_put :: "Broker \<Rightarrow> pystr \<Rightarrow> pystr \<Rightarrow> (error + unit) \<times> Broker" where
  "SimpleQueue_put broker qn message =
     (case fault broker of
        Some e \<Rightarrow> (Inl e, broker)
      | None \<Rightarrow>
          (Inr (),
           broker\<lparr>queues := (queues broker)
             (qn \<mapsto> (case queues broker qn of None \<Rightarrow> [] | Some msgs \<Rightarrow> msgs) @ [message])\<rparr>))"

definition qsize :: "ObservabilityBuffer \<Rightarrow> Broker \<Rightarrow> error + int" where
  "qsize self broker =
     (case SimpleQueue_qsize broker (queue_name self) of
        Inl e \<Rightarrow> if e = ChannelError then Inr 0 else Inl e
      | Inr n \<Rightarrow> Inr n)"

text \<open>
  \<open>size_in_batches\<close> is \<open>math.ceil(self.qsize() / self.batch)\<close>: the true division of
  the two integers, and the ceiling of the double it gives.
\<close>

definition size_in_batches :: "ObservabilityBuffer \<Rightarrow> Broker \<Rightarrow> error + int" where
  "size_in_batches self broker =
     bind (qsize self broker)
       (\<lambda>depth. bind (int_truediv depth (batch self)) (\<lambda>quotient. Inr \<lceil>quotient\<rceil>))"

text \<open>\<open>len(self)\<close> is \<open>self.qsize()\<close> (kombu's \<open>SimpleQueue.__len__\<close>).\<close>

definition put_event :: "ObservabilityBuffer \<Rightarrow> pystr \<Rightarrow> Broker \<Rightarrow> (error + unit) \<times> Broker" where
  "put_event self json_payload broker =
     (case qsize self broker of
        Inl e \<Rightarrow> (Inl e, broker)
      | Inr len_self \<Rightarrow>
          if len_self \<ge> max_length self then
            (Inl (FullObservabilityEventsBuffer (event_type self)), broker)
          else SimpleQueue_put broker (queue_name self) json_payload)"

text \<open>
  \<open>observability_connection\<close> wraps the body of its \<open>with\<close> block: an exception among
  the connection's \<open>connection_errors\<close> and \<open>channel_errors\<close> becomes
  \<open>ObservabilityConnectionError\<close>, another \<open>KombuError\<close> becomes
  \<open>ObservabilityKombuError\<close>, and any other exception passes.
\<close>

definition observability_connection :: "(error + 'a) \<times> Broker \<Rightarrow> (error + 'a) \<times> Broker" where
  "observability_connection body =
     (case body of
        (Inl err, broker) \<Rightarrow>
          (if is_connection_error err then Inl ObservabilityConnectionError
           else if is_KombuError err then Inl ObservabilityKombuError
           else Inl err, broker)
      | (Inr x, broker) \<Rightarrow> (Inr x, broker))"

text \<open>\<open>_get_buffer\<close> followed by the call on the buffer, for the three users of it.\<close>

definition observability_buffer_put_event ::
  "Settings \<Rightarrow> (pystr \<Rightarrow> pystr) \<Rightarrow> pystr \<Rightarrow> pystr \<Rightarrow> Broker \<Rightarrow> (error + unit) \<times> Broker" where
  "observability_buffer_put_event settings make_key event_type_v json_payload broker =
     (if event_type_v \<notin> set OBSERVABILITY_EVENTS then (Inl ValueError, broker)
      else
        observability_connection
          (put_event
             (ObservabilityBuffer_init make_key event_type_v
                (OBSERVABILITY_BUFFER_BATCH settings) (OBSERVABILITY_BUFFER_SIZE_LIMIT settings))
             json_payload broker))"

definition observability_buffer_size_in_batches ::
  "Settings \<Rightarrow> (pystr \<Rightarrow> pystr) \<Rightarrow> pystr \<Rightarrow> Broker \<Rightarrow> (error + int) \<times> Broker" where
  "observability_buffer_size_in_batches settings make_key event_type_v broker =
     (if event_type_v \<notin> set OBSERVABILITY_EVENTS then (Inl ValueError, broker)
      else
        observability_connection
          (size_in_batches
             (ObservabilityBuffer_init make_key event_type_v
                (OBSERVABILITY_BUFFER_BATCH settings) (OBSERVABILITY_BUFFER_SIZE_LIMIT settings))
             broker, broker))"

text \<open>
  The two capture entry points. Each returns what the call does to its caller (\<open>Inr ()\<close>
  for a normal return, \<open>Inl\<close> for an exception that propagates), the log entries it
  writes (level and event type) and the broker afterwards. \<open>webhooks\<close> is the database
  lookup \<open>_get_webhooks_for_event(event_type).exists()\<close>: for an event type, the answer
  or the exception the query raises. Both functions run it before their \<open>try\<close> block,
  so its exception reaches the caller. The body of the \<open>try\<close> block is
  \<open>api_call_try\<close> and \<open>delivery_attempt_try\<close>; its two \<open>except\<close> clauses are
  \<open>except_log\<close>: \<open>ValueError\<close> and \<open>ObservabilityError\<close> are logged at level info, and
  \<open>except Exception\<close> logs every other value of \<open>error\<close> as a warning.
\<close>

definition except_log ::
  "pystr \<Rightarrow> (error + unit) \<times> Broker \<Rightarrow> (error + unit) \<times> (log_level \<times> pystr) list \<times> Broker" where
  "except_log event_type_v outcome =
     (case outcome of
        (Inr u, broker) \<Rightarrow> (Inr (), [], broker)
      | (Inl e, broker) \<Rightarrow>
          if is_ValueError e \<or> is_ObservabilityError e then
            (Inr (), [(INFO, event_type_v)], broker)
          else (Inr (), [(WARN, event_type_v)], broker))"

definition delivery_attempt_try ::
  "Settings \<Rightarrow> (pystr \<Rightarrow> pystr) \<Rightarrow> pystr \<Rightarrow> EventDeliveryAttempt \<Rightarrow> Broker \<Rightarrow>
   (error + unit) \<times> Broker" where
  "delivery_attempt_try settings make_key event_type_v attempt broker =
     (case generate_truncated_event_delivery_attempt_payload settings attempt None of
        Inl e \<Rightarrow> (Inl e, broker)
      | Inr event \<Rightarrow> observability_buffer_put_event settings make_key event_type_v event broker)"

definition observability_event_delivery_attempt ::
  "Settings \<Rightarrow> (pystr \<Rightarrow> pystr) \<Rightarrow> (pystr \<Rightarrow> error + bool) \<Rightarrow> pystr \<Rightarrow>
   EventDeliveryAttempt \<Rightarrow> Broker \<Rightarrow> (error + unit) \<times> (log_level \<times> pystr) list \<times> Broker" where
  "observability_event_delivery_attempt settings make_key webhooks event_type_v attempt broker =
     (if event_type_v \<in> set OBSERVABILITY_EVENTS then (Inr (), [], broker)
      else
        (let observability_event_type = OBSERVABILITY_EVENT_DELIVERY_ATTEMPTS in
         case webhooks observability_event_type of
           Inl e \<Rightarrow> (Inl e, [], broker)
         | Inr webhooks_exists \<Rightarrow>
             if webhooks_exists then
               except_log event_type_v
                 (delivery_attempt_try settings make_key event_type_v attempt broker)
             else (Inr (), [], broker)))"

definition api_call_try ::
  "Settings \<Rightarrow> (pystr \<Rightarrow> pystr) \<Rightarrow> HttpRequest \<Rightarrow> HttpResponse \<Rightarrow> GQLOperationResult list \<Rightarrow>
   Broker \<Rightarrow> (error + unit) \<times> Broker" where
  "api_call_try settings make_key req resp gql_operations broker =
     (case generate_api_call_payload req resp gql_operations
             (OBSERVABILITY_MAX_PAYLOAD_SIZE settings) of
        Inl e \<Rightarrow> (Inl e, broker)
      | Inr event \<Rightarrow>
          observability_buffer_put_event settings make_key OBSERVABILITY_API_CALLS event broker)"

definition observability_api_call ::
  "Settings \<Rightarrow> (pystr \<Rightarrow> pystr) \<Rightarrow> (pystr \<Rightarrow> error + bool) \<Rightarrow> ApiCallResponse \<Rightarrow>
   Broker \<Rightarrow> (error + unit) \<times> (log_level \<times> pystr) list \<times> Broker" where
  "observability_api_call settings make_key webhooks api_call broker =
     (if \<not> OBSERVABILITY_ACTIVE settings then (Inr (), [], broker)
      else
        (case (request api_call, response api_call) of
           (Some req, Some resp) \<Rightarrow>
             if \<not> OBSERVABILITY_REPORT_ALL_API_CALLS settings \<and> app req \<noteq> None then
               (Inr (), [], broker)
             else
               (case webhooks OBSERVABILITY_API_CALLS of
                  Inl e \<Rightarrow> (Inl e, [], broker)
                | Inr webhooks_exists \<Rightarrow>
                    if webhooks_exists then
                      except_log OBSERVABILITY_API_CALLS
                        (api_call_try settings make_key req resp (queries api_call) broker)
                    else (Inr (), [], broker))
         | _ \<Rightarrow> (Inr (), [], broker)))"

section \<open>The allocation rule of the specification\<close>


section \<open>Example inputs\<close>


definition example_subscription :: GQLOperationResult where
  "example_subscription =
     \<lparr>name = Some (py ''S''),
      query = Some \<lparr>document_string = py ''subscription S{a}'',
                    document_ast =
                      (\<lambda>operation_name.
                         if operation_name = None \<or> operation_name = Some [] \<or>
                            operation_name = Some (py ''S'')
                         then Some (py ''subscription'') else None)\<rparr>,
      variables = None,
      result = Some [(py ''a'', JInt 12345678)]\<rparr>"

definition example_request_payload :: json where
  "example_request_payload =
     JDict [(py ''id'', JStr (py ''4f0f5f4e-2f0b-4c53-9d0a-0c1f3a1f7a11'')),
            (py ''method'', JStr (py ''POST'')),
            (py ''url'', JStr (py ''http://localhost:8000/graphql/'')),
            (py ''time'', JFloat (py ''1654000000.0'')),
            (py ''headers'', JDict [(py ''Content-Type'', JStr (py ''application/json''))]),
            (py ''contentLength'', JInt 19)]"

definition example_request :: HttpRequest where
  "example_request = \<lparr>request_payload = Inr example_request_payload, app = None\<rparr>"

definition example_response_payload :: json where
  "example_response_payload =
     JDict [(py ''headers'', JDict [(py ''Content-Type'', JStr (py ''application/json''))]),
            (py ''statusCode'', JInt 200),
            (py ''reasonPhrase'', JStr (py ''OK'')),
            (py ''contentLength'', JInt 13)]"

definition example_response :: HttpResponse where
  "example_response = \<lparr>response_payload = Inr example_response_payload\<rparr>"

text \<open>
  The payload of the example subscription when nothing of it is cut.
\<close>

definition example_subscription_payload :: json where
  "example_subscription_payload =
     JDict [(py ''name'', JTruncText \<lparr>text' = [83], truncated = False, added_bytes = 0,
                                        ensure_ascii = True\<rparr>),
            (py ''operation_type'', JStr (py ''subscription'')),
            (py ''query'', JTruncText
               \<lparr>text' = [115, 117, 98, 115, 99, 114, 105, 112, 116, 105, 111, 110, 32, 83, 123,
                         97, 125],
                truncated = False, added_bytes = 0, ensure_ascii = True\<rparr>),
            (py ''result'', JTruncText
               \<lparr>text' = [123, 34, 97, 34, 58, 32, 49, 50, 51, 52, 53, 54, 55, 56, 125],
                truncated = False, added_bytes = 2, ensure_ascii = True\<rparr>)]"

definition example_attempt :: EventDeliveryAttempt where
  "example_attempt =
     \<lparr>attempt_data = JDict
        [(py ''id'', JStr (py ''RXZlbnREZWxpdmVyeUF0dGVtcHQ6MQ=='')),
         (py ''time'', JFloat (py ''1654000000.0'')),
         (py ''duration'', JNull),
         (py ''status'', JStr (py ''success'')),
         (py ''nextRetry'', JNull)],
      request_headers = Inr (JDict []),
      response_headers = Inr (JDict []),
      response' = None,
      delivery = Some
        \<lparr>delivery_fields =
           [(py ''id'', JStr (py ''RXZlbnREZWxpdmVyeTox'')),
            (py ''status'', JStr (py ''success'')),
            (py ''type'', JStr (py ''order_created''))],
         payload = Some [34, 97, 97],
         webhook = None\<rparr>\<rparr>"

definition example_settings :: Settings where
  "example_settings =
     \<lparr>OBSERVABILITY_ACTIVE = True, OBSERVABILITY_REPORT_ALL_API_CALLS = False,
      OBSERVABILITY_MAX_PAYLOAD_SIZE = 25000, OBSERVABILITY_BUFFER_BATCH = 10,
      OBSERVABILITY_BUFFER_SIZE_LIMIT = 100\<rparr>"

text \<open>
  A broker whose queue of API-call events holds two messages; one where every queue holds
  25 messages; one without queues whose publish raises a \<open>RuntimeError\<close>; one where every
  queue holds \<open>2^53 + 1\<close> messages and one where every queue holds one message; a
  webhook lookup that finds a webhook for every event
  type, and one whose query raises; and a captured API call of the example request and
  response without operations.
\<close>

definition example_broker :: Broker where
  "example_broker =
     \<lparr>queues = (\<lambda>qn. if qn = py ''buffer_observability_api_calls''
                        then Some [py ''{}'', py ''{}''] else None),
      fault = None\<rparr>"

definition example_broker_25 :: Broker where
  "example_broker_25 = \<lparr>queues = (\<lambda>qn. Some (replicate 25 (py ''{}''))), fault = None\<rparr>"

definition example_faulty_broker :: Broker where
  "example_faulty_broker =
     \<lparr>queues = (\<lambda>qn. None), fault = Some (OtherException (py ''RuntimeError''))\<rparr>"

definition example_broker_huge :: Broker where
  "example_broker_huge =
     \<lparr>queues = (\<lambda>qn. Some (replicate (2 ^ 53 + 1) (py ''{}''))), fault = None\<rparr>"

definition example_broker_one :: Broker where
  "example_broker_one = \<lparr>queues = (\<lambda>qn. Some [py ''{}'']), fault = None\<rparr>"

definition example_webhooks :: "pystr \<Rightarrow> error + bool" where
  "example_webhooks event_type_v = Inr True"

definition example_failing_webhooks :: "pystr \<Rightarrow> error + bool" where
  "example_failing_webhooks event_type_v = Inl (OtherException (py ''OperationalError''))"

definition example_api_call :: ApiCallResponse where
  "example_api_call =
     \<lparr>request = Some example_request, response = Some example_response, queries = []\<rparr>"

section \<open>Properties of \<open>JsonTruncText.truncate\<close>\<close>

lemma encode_append:
  "encode (xs @ ys) =
     (case encode xs of
        Inl e \<Rightarrow> Inl e
      | Inr a \<Rightarrow> (case encode ys of Inl e \<Rightarrow> Inl e | Inr b \<Rightarrow> Inr (a @ b)))"
  by (induction xs) (auto split: sum.splits)

lemma encode_ascii: "\<forall>c \<in> set xs. c < 128 \<Longrightarrow> encode xs = Inr xs"
  by (induction xs) (auto simp: encode_char_def)

lemma jtb_append:
  "json_text_bytes ea (xs @ ys) =
     (case json_text_bytes ea xs of
        Inl e \<Rightarrow> Inl e
      | Inr a \<Rightarrow> (case json_text_bytes ea ys of Inl e \<Rightarrow> Inl e | Inr b \<Rightarrow> Inr (a @ b)))"
  by (cases ea) (auto simp: json_text_bytes_def escape_ascii_body_def escape_body_def encode_append split: sum.splits)

lemma jtb_Nil: "json_text_bytes ea [] = Inr []"
  by (simp add: json_text_bytes_def escape_ascii_body_def escape_body_def)

lemma jtb_plain: "\<not> ESCAPE_ASCII c \<Longrightarrow> json_text_bytes ea [c] = Inr [c]"
  by (auto simp: json_text_bytes_def escape_ascii_body_def escape_body_def ESCAPE_ASCII_def ESCAPE_def encode_char_def)

lemma hex_digit_ascii: "hex_digit (n mod 16) < 128"
proof -
  have "n mod 16 < 16" by simp
  then show ?thesis unfolding hex_digit_def by presburger
qed

lemma hex4_ascii: "\<forall>x \<in> set (hex4 n). x < 128"
  by (simp add: hex4_def hex_digit_ascii)

lemma ESCAPE_DCT_ascii: "ESCAPE_DCT c = Some e \<Longrightarrow> \<forall>x \<in> set e. x < 128"
  using hex4_ascii by (auto simp: ESCAPE_DCT_def split: if_splits)

lemma ESCAPE_DCT_dom: "ESCAPE_DCT c = None \<longleftrightarrow> \<not> ESCAPE c"
  by (auto simp: ESCAPE_DCT_def ESCAPE_def)

lemma length_hex4: "length (hex4 n) = 4"
  by (simp add: hex4_def)

lemma json_char_len_exact:
  "ESCAPE_ASCII c \<Longrightarrow>
   json_char_len c ea =
     (case json_text_bytes ea [c] of Inl e \<Rightarrow> Inl e | Inr bs \<Rightarrow> Inr (int (length bs)))"
proof (cases "ESCAPE_DCT c")
  case (Some e)
  assume "ESCAPE_ASCII c"
  have esc: "ESCAPE c" using Some ESCAPE_DCT_dom[of c] by auto
  have "encode e = Inr e" using ESCAPE_DCT_ascii[OF Some] by (rule encode_ascii)
  then show ?thesis using Some esc \<open>ESCAPE_ASCII c\<close>
    by (simp add: json_char_len_def json_text_bytes_def escape_ascii_body_def escape_body_def replace_ascii_def)
next
  case None
  assume m: "ESCAPE_ASCII c"
  have nesc: "\<not> ESCAPE c" using None ESCAPE_DCT_dom[of c] by auto
  show ?thesis
  proof (cases ea)
    case True
    have "\<forall>x \<in> set (replace_ascii c). x < 128"
      using hex4_ascii by (auto simp: replace_ascii_def None)
    then have "encode (replace_ascii c) = Inr (replace_ascii c)" by (rule encode_ascii)
    moreover have "int (length (replace_ascii c)) = (if c < 0x10000 then 6 else 12)"
      by (simp add: replace_ascii_def None length_hex4)
    ultimately show ?thesis using True None m
      by (simp add: json_char_len_def json_text_bytes_def escape_ascii_body_def)
  next
    case False
    then show ?thesis using None nesc
      by (simp add: json_char_len_def json_text_bytes_def escape_body_def)
  qed
qed

lemma truncate_loop_exact:
  "truncate_loop ea limit n (pre @ cs) added (finditer_from (length pre) cs) = Inr r \<Longrightarrow>
   json_text_bytes ea pre = Inr bs \<Longrightarrow>
   added = int (length bs) - int (length pre) \<Longrightarrow>
   \<exists>bs'. json_text_bytes ea (text' r) = Inr bs' \<and> byte_size r = int (length bs')"
proof (induction cs arbitrary: pre added bs)
  case Nil
  then show ?case by (auto simp: byte_size_def)
next
  case (Cons c cs)
  show ?case
  proof (cases "ESCAPE_ASCII c")
    case False
    have b: "json_text_bytes ea (pre @ [c]) = Inr (bs @ [c])"
      using Cons.prems(2) jtb_plain[OF False, of ea] by (simp add: jtb_append)
    have l: "truncate_loop ea limit n ((pre @ [c]) @ cs) added (finditer_from (length (pre @ [c])) cs) = Inr r"
      using Cons.prems(1) False by simp
    show ?thesis
      by (rule Cons.IH[OF l b]) (simp add: Cons.prems(3))
  next
    case True
    from Cons.prems(1) True obtain k where k: "json_char_len c ea = Inr k"
      by (auto split: sum.splits)
    with json_char_len_exact[OF True, of ea] obtain cb where
      cb: "json_text_bytes ea [c] = Inr cb" and kk: "k = int (length cb)"
      by (auto split: sum.splits)
    have b: "json_text_bytes ea (pre @ [c]) = Inr (bs @ cb)"
      using Cons.prems(2) cb by (simp add: jtb_append)
    consider (gt) "int (length pre) + 1 + (added + (k - 1)) > limit"
      | (eq) "int (length pre) + 1 + (added + (k - 1)) = limit"
      | (lt) "int (length pre) + 1 + (added + (k - 1)) < limit" by linarith
    then show ?thesis
    proof cases
      case gt
      then have "r = \<lparr>text' = pre, truncated = True, added_bytes = added, ensure_ascii = ea\<rparr>"
        using Cons.prems(1) True k by (simp add: Let_def)
      then show ?thesis using Cons.prems(2,3) by (simp add: byte_size_def)
    next
      case eq
      then have "r = \<lparr>text' = pre @ [c], truncated = (length (pre @ [c]) < n), added_bytes = added + (k - 1), ensure_ascii = ea\<rparr>"
        using Cons.prems(1) True k by (simp add: Let_def)
      then show ?thesis using b Cons.prems(3) kk by (simp add: byte_size_def)
    next
      case lt
      then have l: "truncate_loop ea limit n ((pre @ [c]) @ cs) (added + (k - 1)) (finditer_from (length (pre @ [c])) cs) = Inr r"
        using Cons.prems(1) True k by (simp add: Let_def)
      show ?thesis
        by (rule Cons.IH[OF l b]) (simp add: Cons.prems(3) kk)
    qed
  qed
qed

lemma truncate_exact:
  assumes "truncate s limit ea = Inr r"
  shows "\<exists>bs. json_text_bytes ea (text' r) = Inr bs \<and> byte_size r = int (length bs)"
proof -
  have "truncate_loop ea (max limit 0) (length s) ([] @ take (nat (max limit 0)) s) 0
          (finditer_from (length ([]::nat list)) (take (nat (max limit 0)) s)) = Inr r"
    using assms by (simp add: truncate_def finditer_def Let_def)
  from truncate_loop_exact[OF this jtb_Nil] show ?thesis by simp
qed

lemma truncate_loop_flag:
  "truncate_loop ea limit n (pre @ cs) added (finditer_from (length pre) cs) = Inr r \<Longrightarrow>
   length (pre @ cs) \<le> n \<Longrightarrow>
   truncated r = (length (text' r) < n)"
proof (induction cs arbitrary: pre added)
  case Nil
  then show ?case by auto
next
  case (Cons c cs)
  show ?case
  proof (cases "ESCAPE_ASCII c")
    case False
    have l: "truncate_loop ea limit n ((pre @ [c]) @ cs) added (finditer_from (length (pre @ [c])) cs) = Inr r"
      using Cons.prems(1) False by simp
    show ?thesis by (rule Cons.IH[OF l]) (use Cons.prems(2) in simp)
  next
    case True
    from Cons.prems(1) True obtain k where k: "json_char_len c ea = Inr k"
      by (auto split: sum.splits)
    consider (gt) "int (length pre) + 1 + (added + (k - 1)) > limit"
      | (eq) "int (length pre) + 1 + (added + (k - 1)) = limit"
      | (lt) "int (length pre) + 1 + (added + (k - 1)) < limit" by linarith
    then show ?thesis
    proof cases
      case gt
      then have "r = \<lparr>text' = pre, truncated = True, added_bytes = added, ensure_ascii = ea\<rparr>"
        using Cons.prems(1) True k by (simp add: Let_def)
      then show ?thesis using Cons.prems(2) by simp
    next
      case eq
      then have "r = \<lparr>text' = pre @ [c], truncated = (length (pre @ [c]) < n), added_bytes = added + (k - 1), ensure_ascii = ea\<rparr>"
        using Cons.prems(1) True k by (simp add: Let_def)
      then show ?thesis by simp
    next
      case lt
      then have l: "truncate_loop ea limit n ((pre @ [c]) @ cs) (added + (k - 1)) (finditer_from (length (pre @ [c])) cs) = Inr r"
        using Cons.prems(1) True k by (simp add: Let_def)
      show ?thesis by (rule Cons.IH[OF l]) (use Cons.prems(2) in simp)
    qed
  qed
qed

lemma truncate_flag:
  assumes "truncate s limit ea = Inr r"
  shows "truncated r = (length (text' r) < length s)"
proof -
  have "truncate_loop ea (max limit 0) (length s) ([] @ take (nat (max limit 0)) s) 0
          (finditer_from (length ([]::nat list)) (take (nat (max limit 0)) s)) = Inr r"
    using assms by (simp add: truncate_def finditer_def Let_def)
  from truncate_loop_flag[OF this] show ?thesis by simp
qed

lemma json_char_len_pos: "json_char_len c ea = Inr k \<Longrightarrow> 1 \<le> k"
  by (auto simp: json_char_len_def ESCAPE_DCT_def hex4_def encode_char_def
      split: option.splits if_splits sum.splits)

lemma jtb_single_pos: "json_text_bytes ea [c] = Inr cb \<Longrightarrow> 1 \<le> length cb"
proof (cases "ESCAPE_ASCII c")
  case True
  assume "json_text_bytes ea [c] = Inr cb"
  then have "json_char_len c ea = Inr (int (length cb))"
    using json_char_len_exact[OF True, of ea] by simp
  from json_char_len_pos[OF this] show ?thesis by simp
next
  case False
  assume "json_text_bytes ea [c] = Inr cb"
  then have "cb = [c]" using jtb_plain[OF False, of ea] by simp
  then show ?thesis by simp
qed

lemma jtb_length_ge: "json_text_bytes ea cs = Inr bs \<Longrightarrow> length cs \<le> length bs"
proof (induction cs arbitrary: bs)
  case Nil
  then show ?case by simp
next
  case (Cons c cs)
  from Cons.prems obtain cb rb where
    cb: "json_text_bytes ea [c] = Inr cb" and rb: "json_text_bytes ea cs = Inr rb"
    and bs: "bs = cb @ rb"
    using jtb_append[of ea "[c]" cs] by (auto split: sum.splits)
  from Cons.IH[OF rb] jtb_single_pos[OF cb] bs show ?case by simp
qed

lemma truncate_loop_identity:
  "json_text_bytes ea pre = Inr bs \<Longrightarrow>
   json_text_bytes ea cs = Inr bs2 \<Longrightarrow>
   added = int (length bs) - int (length pre) \<Longrightarrow>
   int (length bs) + int (length bs2) \<le> limit \<Longrightarrow>
   truncate_loop ea limit n (pre @ cs) added (finditer_from (length pre) cs) =
     Inr \<lparr>text' = pre @ cs, truncated = (length (pre @ cs) < n),
          added_bytes = int (length bs) + int (length bs2) - int (length (pre @ cs)),
          ensure_ascii = ea\<rparr>"
proof (induction cs arbitrary: pre added bs bs2)
  case Nil
  then show ?case by (simp add: jtb_Nil)
next
  case (Cons c cs)
  from Cons.prems(2) obtain cb rb where
    cb: "json_text_bytes ea [c] = Inr cb" and rb: "json_text_bytes ea cs = Inr rb"
    and bs2: "bs2 = cb @ rb"
    using jtb_append[of ea "[c]" cs] by (auto split: sum.splits)
  have b: "json_text_bytes ea (pre @ [c]) = Inr (bs @ cb)"
    using Cons.prems(1) cb by (simp add: jtb_append)
  show ?case
  proof (cases "ESCAPE_ASCII c")
    case False
    then have cbc: "cb = [c]" using cb jtb_plain[of c ea] by simp
    have "truncate_loop ea limit n ((pre @ [c]) @ cs) added (finditer_from (length (pre @ [c])) cs) =
        Inr \<lparr>text' = (pre @ [c]) @ cs, truncated = (length ((pre @ [c]) @ cs) < n),
          added_bytes = int (length (bs @ cb)) + int (length rb) - int (length ((pre @ [c]) @ cs)),
          ensure_ascii = ea\<rparr>"
      by (rule Cons.IH[OF b rb]) (use Cons.prems(3,4) cbc bs2 in simp_all)
    then show ?thesis using False bs2 by simp
  next
    case True
    have k: "json_char_len c ea = Inr (int (length cb))"
      using json_char_len_exact[OF True, of ea] cb by simp
    have le: "int (length pre) + 1 + (added + (int (length cb) - 1)) \<le> limit"
      using Cons.prems(3,4) bs2 by simp
    show ?thesis
    proof (cases "int (length pre) + 1 + (added + (int (length cb) - 1)) = limit")
      case eq: True
      have "int (length bs) + (int (length cb) + int (length rb)) \<le> limit"
        using Cons.prems(4) bs2 by simp
      moreover have "int (length bs) + int (length cb) = limit"
        using eq Cons.prems(3) by simp
      ultimately have "length rb = 0" by linarith
      then have "cs = []" "rb = []" using jtb_length_ge[OF rb] by auto
      then show ?thesis using True k eq bs2 Cons.prems(3) by (simp add: Let_def)
    next
      case False
      then have lt: "int (length pre) + 1 + (added + (int (length cb) - 1)) < limit"
        using le by simp
      have "truncate_loop ea limit n ((pre @ [c]) @ cs) (added + (int (length cb) - 1))
              (finditer_from (length (pre @ [c])) cs) =
        Inr \<lparr>text' = (pre @ [c]) @ cs, truncated = (length ((pre @ [c]) @ cs) < n),
          added_bytes = int (length (bs @ cb)) + int (length rb) - int (length ((pre @ [c]) @ cs)),
          ensure_ascii = ea\<rparr>"
        by (rule Cons.IH[OF b rb]) (use Cons.prems(3,4) bs2 in simp_all)
      then show ?thesis using True k lt bs2 by (simp add: Let_def)
    qed
  qed
qed

lemma truncate_identity:
  assumes "json_text_bytes ea s = Inr bs" and "int (length bs) \<le> limit"
  shows "truncate s limit ea =
     Inr \<lparr>text' = s, truncated = False, added_bytes = int (length bs) - int (length s),
          ensure_ascii = ea\<rparr>"
proof -
  have len: "int (length s) \<le> limit"
    using jtb_length_ge[OF assms(1)] assms(2) by simp
  then have tk: "take (nat (max limit 0)) s = s" by simp
  have "truncate_loop ea (max limit 0) (length s) ([] @ s) 0 (finditer_from (length ([]::nat list)) s) =
     Inr \<lparr>text' = [] @ s, truncated = (length ([] @ s) < length s),
          added_bytes = int (length ([]::nat list)) + int (length bs) - int (length ([] @ s)),
          ensure_ascii = ea\<rparr>"
    by (rule truncate_loop_identity[OF jtb_Nil assms(1)]) (use assms(2) in simp_all)
  then show ?thesis by (simp add: truncate_def finditer_def Let_def tk)
qed

lemma truncate_loop_total:
  "ea \<or> (\<forall>c \<in> set cs. \<not> is_surrogate c) \<Longrightarrow>
   \<exists>r. truncate_loop ea limit n s added (finditer_from i cs) = Inr r"
proof (induction cs arbitrary: i added)
  case Nil
  then show ?case by simp
next
  case (Cons c cs)
  have "\<exists>k. json_char_len c ea = Inr k"
    using Cons.prems
    by (auto simp: json_char_len_def encode_char_def split: option.splits)
  then obtain k where k: "json_char_len c ea = Inr k" by blast
  have ih: "\<And>i added. \<exists>r. truncate_loop ea limit n s added (finditer_from i cs) = Inr r"
    using Cons.IH Cons.prems by auto
  show ?case using k ih by (simp add: Let_def)
qed

lemma truncate_total:
  "ea \<or> (\<forall>c \<in> set s. \<not> is_surrogate c) \<Longrightarrow> \<exists>r. truncate s limit ea = Inr r"
  unfolding truncate_def finditer_def Let_def
  by (rule truncate_loop_total) (auto dest: in_set_takeD)

text \<open>
  C1 (the limit is exceeded). \<open>truncate\<close> charges the escape overhead against the limit
  only when the loop stands on an escaped character: the plain characters that follow the
  last escape inside \<open>s[:limit]\<close> are kept without a check. For the three characters
  quote, \<open>a\<close>, \<open>a\<close> and the limit 3, in both escaping modes, the text comes back whole,
  not flagged as truncated, and its byte size is 4.
\<close>

theorem truncate_exceeds_limit:
  "truncate [34, 97, 97] 3 True =
     Inr \<lparr>text' = [34, 97, 97], truncated = False, added_bytes = 1, ensure_ascii = True\<rparr> \<and>
   truncate [34, 97, 97] 3 False =
     Inr \<lparr>text' = [34, 97, 97], truncated = False, added_bytes = 1, ensure_ascii = False\<rparr> \<and>
   byte_size \<lparr>text' = [34, 97, 97], truncated = False, added_bytes = 1, ensure_ascii = True\<rparr> = 4 \<and>
   json_text_bytes True [34, 97, 97] = Inr [92, 34, 97, 97]"
  by code_simp

text \<open>
  C5. If the JSON-escaped bytes of \<open>s\<close> under the chosen mode are at most \<open>limit\<close>, then
  \<open>truncate\<close> returns \<open>s\<close> itself, not flagged as truncated (and its byte size is the
  number of those bytes).
\<close>

theorem truncate_identity_when_fits:
  assumes "json_text_bytes ea s = Inr bs" and "int (length bs) \<le> limit"
  shows "\<exists>r. truncate s limit ea = Inr r \<and> text' r = s \<and> truncated r = False \<and>
             byte_size r = int (length bs)"
  using truncate_identity[OF assms] by (simp add: byte_size_def)

theorem truncate_identity_when_fits_witness:
  "json_text_bytes False [97, 98, 31, 99] = Inr [97, 98, 92, 117, 48, 48, 49, 102, 99] \<and>
   (\<exists>r. truncate [97, 98, 31, 99] 9 False = Inr r \<and> text' r = [97, 98, 31, 99] \<and>
        truncated r = False \<and> byte_size r = 9)"
proof -
  have h: "json_text_bytes False [97, 98, 31, 99] = Inr [97, 98, 92, 117, 48, 48, 49, 102, 99]"
    by code_simp
  show ?thesis
    using h truncate_identity_when_fits[OF h, of 9] by simp
qed

text \<open>
  C6. Whenever \<open>truncate\<close> returns, the truncated flag of the result is true exactly when
  the returned text is shorter than the input; it returns for every string in the
  ASCII-safe mode, and for every string without a lone surrogate in the other mode. For the
  text \<open>a\<close>, \<open>b\<close>, \<open>0x1f\<close>, \<open>c\<close>, the limit 8 and \<open>ensure_ascii = False\<close> the result is
  the first three characters, of byte size 8, flagged as truncated.
\<close>

theorem truncated_iff_shorter:
  "(\<forall>r. truncate s limit ea = Inr r \<longrightarrow> truncated r = (length (text' r) < length s)) \<and>
   (ea \<or> (\<forall>c \<in> set s. \<not> is_surrogate c) \<longrightarrow> (\<exists>r. truncate s limit ea = Inr r)) \<and>
   (\<exists>r. truncate [97, 98, 31, 99] 8 False = Inr r \<and> text' r = [97, 98, 31] \<and>
        byte_size r = 8 \<and> truncated r)"
proof (intro conjI allI impI)
  fix r assume "truncate s limit ea = Inr r"
  then show "truncated r = (length (text' r) < length s)" by (rule truncate_flag)
next
  assume "ea \<or> (\<forall>c \<in> set s. \<not> is_surrogate c)"
  then show "\<exists>r. truncate s limit ea = Inr r" by (rule truncate_total)
next
  have "truncate [97, 98, 31, 99] 8 False =
      Inr \<lparr>text' = [97, 98, 31], truncated = True, added_bytes = 5, ensure_ascii = False\<rparr>"
    by code_simp
  then show "\<exists>r. truncate [97, 98, 31, 99] 8 False = Inr r \<and> text' r = [97, 98, 31] \<and>
        byte_size r = 8 \<and> truncated r"
    by (simp add: byte_size_def)
qed

theorem truncated_iff_shorter_witness:
  "\<exists>r. truncate [97, 10, 99, 65537, 100] 16 True = Inr r \<and>
       truncated r = (length (text' r) < length [97, 10, 99, 65537, 100 :: nat])"
  using truncated_iff_shorter[of "[97, 10, 99, 65537, 100]" 16 True] by blast

section \<open>Properties of the budget allocation\<close>

lemma json_dumps_JsonTruncText:
  "json_dumps (JTruncText t) = json_dumps (CustomJsonEncoder_default t)"
  by (simp add: CustomJsonEncoder_default_def)

lemma placeholder_size: "GQL_OPERATION_PLACEHOLDER_SIZE = 163"
  by code_simp

lemma truncate_ascii_no_error: "truncate s l True \<noteq> Inl e"
  using truncate_total[of True s l] by auto



lemma sgor_error_value:
  "serialize_gql_operation_result operation l = Inl e \<Longrightarrow> e = ValueError"
  unfolding serialize_gql_operation_result_def Let_def bind_def
  by (auto simp: truncate_ascii_no_error split: option.splits sum.splits prod.splits if_splits)










section \<open>Properties of the payload builders\<close>

lemma example_result_dump:
  "json_dumps (JDict [(py ''a'', JInt 12345678)]) =
     [123, 34, 97, 34, 58, 32, 49, 50, 51, 52, 53, 54, 55, 56, 125]"
  by (simp add: py_def dumps_dict_def py_encode_basestring_ascii_def escape_ascii_body_def
      ESCAPE_ASCII_def int_repr_def nat_repr.simps)

lemma example_truncations:
  "truncate [83] 11 True =
     Inr \<lparr>text' = [83], truncated = False, added_bytes = 0, ensure_ascii = True\<rparr>"
  "truncate [115, 117, 98, 115, 99, 114, 105, 112, 116, 105, 111, 110, 32, 83, 123, 97, 125]
     17 True =
     Inr \<lparr>text' = [115, 117, 98, 115, 99, 114, 105, 112, 116, 105, 111, 110, 32, 83, 123, 97, 125],
          truncated = False, added_bytes = 0, ensure_ascii = True\<rparr>"
  "truncate [123, 34, 97, 34, 58, 32, 49, 50, 51, 52, 53, 54, 55, 56, 125] 17 True =
     Inr \<lparr>text' = [123, 34, 97, 34, 58, 32, 49, 50, 51, 52, 53, 54, 55, 56, 125],
          truncated = False, added_bytes = 2, ensure_ascii = True\<rparr>"
  by (simp_all add: truncate_def finditer_def ESCAPE_ASCII_def json_char_len_def ESCAPE_DCT_def)

lemma example_subscription_serialized:
  "serialize_gql_operation_result example_subscription 198 = Inr (example_subscription_payload, 0)"
proof -
  have d: "json_dumps (JDict [([97], JInt 12345678)]) =
      [123, 34, 97, 34, 58, 32, 49, 50, 51, 52, 53, 54, 55, 56, 125]"
    using example_result_dump by (simp add: py_def)
  show ?thesis
    unfolding serialize_gql_operation_result_def example_subscription_def
      example_subscription_payload_def
    by (simp add: placeholder_size bind_def example_truncations byte_size_def
        get_operation_ast_def py_def d del: json_dumps.simps)
qed

lemma example_subscriptions_serialized:
  "serialize_gql_operation_results [example_subscription, example_subscription] 396 =
     Inr [example_subscription_payload, example_subscription_payload]"
  by (simp add: serialize_gql_operation_results_def placeholder_size bind_def
      example_subscription_serialized)


lemma example_subscription_payload_length:
  "length (json_dumps example_subscription_payload) = 198"
  by code_simp

lemma api_call_payload_length:
  "length (json_dumps (api_call_payload rq rs ap n ops)) =
     length (json_dumps (api_call_payload rq rs ap n [])) +
     length (join (py '', '') (map json_dumps ops))"
  by (simp add: api_call_payload_def dumps_dict_def)

lemma example_base_length:
  "length (json_dumps (api_call_payload example_request_payload example_response_payload
                         JNull 2 [])) = 398"
  by code_simp

lemma example_api_call_result:
  "generate_api_call_payload example_request example_response
     [example_subscription, example_subscription] 794 =
   Inr (json_dumps (api_call_payload example_request_payload example_response_payload JNull 2
          [example_subscription_payload, example_subscription_payload]))"
proof -
  have n: "length [example_subscription, example_subscription] = 2" by simp
  have 1: "request_payload example_request = Inr example_request_payload"
    by (simp add: example_request_def)
  have 2: "response_payload example_response = Inr example_response_payload"
    by (simp add: example_response_def)
  have 3: "app example_request = None" by (simp add: example_request_def)
  have 4: "794 - int 398 = 396" by simp
  have 5: "\<not> (396::int) < 0" by simp
  show ?thesis
    unfolding generate_api_call_payload_def n 1 2 3 bind_def Let_def
    by (simp only: sum.case option.case example_base_length 4 5 if_False
        example_subscriptions_serialized)
qed

lemma example_api_call_length:
  "length (json_dumps (api_call_payload example_request_payload example_response_payload JNull 2
          [example_subscription_payload, example_subscription_payload])) = 796"
proof -
  have sep: "length (py '', '') = 2" by (simp add: py_def)
  have "join (py '', '') (map json_dumps [example_subscription_payload, example_subscription_payload])
      = json_dumps example_subscription_payload @ py '', '' @ json_dumps example_subscription_payload"
    by (simp del: json_dumps.simps)
  then have "length (join (py '', '')
      (map json_dumps [example_subscription_payload, example_subscription_payload])) = 398"
    by (simp only: length_append example_subscription_payload_length sep)
  then show ?thesis
    by (subst api_call_payload_length) (simp add: example_base_length)
qed

lemma example_delivery_length:
  "map_sum id length
     (generate_truncated_event_delivery_attempt_payload example_settings example_attempt
        (Some 466)) = Inr 467"
  by code_simp

lemma sgors_below:
  "bytes_limit < int (length operations) * GQL_OPERATION_PLACEHOLDER_SIZE \<Longrightarrow>
   serialize_gql_operation_results operations bytes_limit = Inl ValueError"
  by (simp add: serialize_gql_operation_results_def)


lemma example_base_length1:
  "length (json_dumps (api_call_payload example_request_payload example_response_payload
                         JNull 1 [])) = 398"
  by code_simp

lemma example_initial_dump_length:
  "length (json_dumps (delivery_attempt_data example_attempt (JDict []) (JDict []) 0
                        (JTruncText TRUNC_PLACEHOLDER) (JTruncText TRUNC_PLACEHOLDER))) = 463"
  by code_simp


lemma api_call_envelope_too_big:
  assumes "request_payload req = Inr rq" and "response_payload resp = Inr rs"
    and "L < int (length (json_dumps (api_call_payload rq rs
                 (case app req of Some a \<Rightarrow> a | None \<Rightarrow> JNull) (length ops) [])))"
  shows "generate_api_call_payload req resp ops L = Inl ValueError"
proof -
  have lt: "L - int (length (json_dumps (api_call_payload rq rs
                 (case app req of Some a \<Rightarrow> a | None \<Rightarrow> JNull) (length ops) []))) < 0"
    using assms(3) by simp
  show ?thesis
    unfolding generate_api_call_payload_def assms(1,2) bind_def Let_def
    by (simp only: sum.case lt if_True)
qed

lemma delivery_attempt_envelope_too_big:
  assumes "request_headers att = Inr rh" and "response_headers att = Inr sh"
    and "encode (case response' att of Some r \<Rightarrow> r | None \<Rightarrow> []) = Inr rb"
    and "L < int (length (json_dumps (delivery_attempt_data att rh sh (int (length rb))
                        (JTruncText TRUNC_PLACEHOLDER) (JTruncText TRUNC_PLACEHOLDER))))"
  shows "generate_truncated_event_delivery_attempt_payload st att (Some L) = Inl ValueError"
proof -
  have lt: "L - int (length (json_dumps (delivery_attempt_data att rh sh (int (length rb))
                        (JTruncText TRUNC_PLACEHOLDER) (JTruncText TRUNC_PLACEHOLDER)))) < 0"
    using assms(4) by simp
  show ?thesis
    unfolding generate_truncated_event_delivery_attempt_payload_def bind_def Let_def
    by (simp only: option.case assms(1,2,3) sum.case lt if_True)
qed

text \<open>
  C2 (the limit is exceeded). Two subscriptions, each filling its budget of 198 bytes
  exactly with nothing cut: the limit 794 leaves 396 bytes after the envelope of 398, and
  the payload returned has 796 bytes, because the separator between the two operations
  is in no budget. And the delivery attempt whose payload is quote, \<open>a\<close>, \<open>a\<close>: the limit
  466 leaves 3 bytes after the envelope of 463, \<open>truncate\<close> keeps the three characters
  (4 bytes once escaped), and the payload returned has 467 bytes. The other half of the
  claim holds: a limit below the envelope raises \<open>ValueError\<close> in both builders (lemmas
  \<open>api_call_envelope_too_big\<close> and \<open>delivery_attempt_envelope_too_big\<close>).
\<close>

theorem payload_exceeds_limit:
  "map_sum id length
     (generate_api_call_payload example_request example_response
        [example_subscription, example_subscription] 794) = Inr 796 \<and>
   map_sum id length
     (generate_truncated_event_delivery_attempt_payload example_settings example_attempt
        (Some 466)) = Inr 467"
  unfolding example_api_call_result
  using example_api_call_length example_delivery_length by simp

text \<open>
  C4. When the limit admits the envelope of the API-call payload but the rest is below
  \<open>n\<close> placeholders, the allocator raises \<open>ValueError\<close> and \<open>generate_api_call_payload\<close>
  still returns: the envelope with the empty list of operations. When the limit is below
  the envelope of the delivery-attempt payload,
  \<open>generate_truncated_event_delivery_attempt_payload\<close> raises \<open>ValueError\<close>.
\<close>

theorem asymmetric_failure:
  "(request_payload req = Inr rq \<and> response_payload resp = Inr rs \<and>
    base = json_dumps (api_call_payload rq rs (case app req of Some a \<Rightarrow> a | None \<Rightarrow> JNull)
                         (length ops) []) \<and>
    int (length base) \<le> L \<and>
    L - int (length base) < int (length ops) * GQL_OPERATION_PLACEHOLDER_SIZE
    \<longrightarrow> serialize_gql_operation_results ops (L - int (length base)) = Inl ValueError \<and>
        generate_api_call_payload req resp ops L = Inr base) \<and>
   (request_headers att = Inr rh \<and> response_headers att = Inr sh \<and>
    encode (case response' att of Some r \<Rightarrow> r | None \<Rightarrow> []) = Inr rb \<and>
    L2 < int (length (json_dumps (delivery_attempt_data att rh sh (int (length rb))
                        (JTruncText TRUNC_PLACEHOLDER) (JTruncText TRUNC_PLACEHOLDER))))
    \<longrightarrow> generate_truncated_event_delivery_attempt_payload st att (Some L2) = Inl ValueError)"
proof (intro conjI impI)
  assume h: "request_payload req = Inr rq \<and> response_payload resp = Inr rs \<and>
    base = json_dumps (api_call_payload rq rs (case app req of Some a \<Rightarrow> a | None \<Rightarrow> JNull)
                         (length ops) []) \<and>
    int (length base) \<le> L \<and>
    L - int (length base) < int (length ops) * GQL_OPERATION_PLACEHOLDER_SIZE"
  then have lt: "L - int (length base) < int (length ops) * GQL_OPERATION_PLACEHOLDER_SIZE"
    by blast
  show e: "serialize_gql_operation_results ops (L - int (length base)) = Inl ValueError"
    using lt by (rule sgors_below)
  from h have "base = json_dumps (api_call_payload rq rs
      (case app req of Some a \<Rightarrow> a | None \<Rightarrow> JNull) (length ops) [])" by blast
  then have b: "json_dumps (api_call_payload rq rs (case app req of Some a \<Rightarrow> a | None \<Rightarrow> JNull)
                         (length ops) []) = base" by (rule sym)
  from h have "int (length base) \<le> L" by blast
  then have le: "\<not> L - int (length base) < 0" by linarith
  from h have 1: "request_payload req = Inr rq" and 2: "response_payload resp = Inr rs"
    by blast+
  show "generate_api_call_payload req resp ops L = Inr base"
    unfolding generate_api_call_payload_def 1 2 bind_def Let_def
    by (simp only: sum.case b le if_False e is_ValueError.simps if_True)
next
  assume h: "request_headers att = Inr rh \<and> response_headers att = Inr sh \<and>
    encode (case response' att of Some r \<Rightarrow> r | None \<Rightarrow> []) = Inr rb \<and>
    L2 < int (length (json_dumps (delivery_attempt_data att rh sh (int (length rb))
                        (JTruncText TRUNC_PLACEHOLDER) (JTruncText TRUNC_PLACEHOLDER))))"
  then have 1: "request_headers att = Inr rh" and 2: "response_headers att = Inr sh"
    and 3: "encode (case response' att of Some r \<Rightarrow> r | None \<Rightarrow> []) = Inr rb"
    and 4: "L2 - int (length (json_dumps (delivery_attempt_data att rh sh (int (length rb))
                        (JTruncText TRUNC_PLACEHOLDER) (JTruncText TRUNC_PLACEHOLDER)))) < 0"
    by simp_all
  show "generate_truncated_event_delivery_attempt_payload st att (Some L2) = Inl ValueError"
    unfolding generate_truncated_event_delivery_attempt_payload_def bind_def Let_def
    by (simp only: option.case 1 2 3 sum.case 4 if_True)
qed

theorem asymmetric_failure_witness:
  "generate_api_call_payload example_request example_response [example_subscription] 408 =
     Inr (json_dumps (api_call_payload example_request_payload example_response_payload
                        JNull 1 [])) \<and>
   generate_truncated_event_delivery_attempt_payload example_settings example_attempt (Some 462) =
     Inl ValueError"
proof -
  define base where "base = json_dumps (api_call_payload example_request_payload
                        example_response_payload JNull 1 [])"
  have len: "length base = 398" unfolding base_def by (rule example_base_length1)
  have n1: "length [example_subscription] = 1" by simp
  have a1: "request_payload example_request = Inr example_request_payload"
    by (simp add: example_request_def)
  have a2: "response_payload example_response = Inr example_response_payload"
    by (simp add: example_response_def)
  have a3: "base = json_dumps (api_call_payload example_request_payload example_response_payload
               (case app example_request of Some a \<Rightarrow> a | None \<Rightarrow> JNull)
               (length [example_subscription]) [])"
    unfolding n1 base_def by (simp add: example_request_def del: json_dumps.simps)
  have a4: "int (length base) \<le> 408" by (simp add: len)
  have a5: "408 - int (length base) <
      int (length [example_subscription]) * GQL_OPERATION_PLACEHOLDER_SIZE"
    by (simp add: len placeholder_size)
  note a = conjI[OF a1 conjI[OF a2 conjI[OF a3 conjI[OF a4 a5]]]]
  have d: "request_headers example_attempt = Inr (JDict []) \<and>
      response_headers example_attempt = Inr (JDict []) \<and>
      encode (case response' example_attempt of Some r \<Rightarrow> r | None \<Rightarrow> []) = Inr [] \<and>
      462 < int (length (json_dumps (delivery_attempt_data example_attempt (JDict []) (JDict [])
                 (int (length ([]::nat list)))
                 (JTruncText TRUNC_PLACEHOLDER) (JTruncText TRUNC_PLACEHOLDER))))"
    using example_initial_dump_length
    by (simp add: example_attempt_def del: json_dumps.simps)
  from asymmetric_failure[of example_request example_request_payload example_response
      example_response_payload base "[example_subscription]" 408
      example_attempt "JDict []" "JDict []" "[]" 462 example_settings] a d
  show ?thesis unfolding base_def by blast
qed

section \<open>Properties of the buffer and of the capture entry points\<close>

lemma ceil_div_int:
  fixes d b :: int
  assumes "0 < b"
  shows "- ((- d) div b) = (d + b - 1) div b"
proof -
  define q where "q = (d + b - 1) div b"
  define r where "r = (d + b - 1) mod b"
  have r: "0 \<le> r" "r < b" using assms by (simp_all add: r_def)
  have e: "d + b - 1 = q * b + r" by (simp add: q_def r_def)
  have "- d = (- q) * b + (b - 1 - r)" using e by (simp add: algebra_simps)
  moreover have "0 \<le> b - 1 - r" "b - 1 - r < b" using r by simp_all
  ultimately have "(- d) div b = - q"
    by (metis div_mult_self3 div_pos_pos_trivial add.commute add_0 assms less_irrefl)
  then show ?thesis by (simp add: q_def)
qed


lemma round_half_even_bounds:
  assumes "0 < den"
  shows "2 * \<bar>round_half_even num den * den - num\<bar> \<le> den"
proof -
  define q where "q = num div den"
  define r where "r = num mod den"
  have n: "num = q * den + r" by (simp add: q_def r_def)
  have r: "0 \<le> r" "r < den" using assms by (simp_all add: r_def)
  have "round_half_even num den = q \<and> 2 * r \<le> den \<or> round_half_even num den = q + 1 \<and> den \<le> 2 * r"
    unfolding round_half_even_def Let_def q_def[symmetric] r_def[symmetric] by auto
  then show ?thesis using n r by (auto simp: algebra_simps)
qed

lemma round_half_even_exact: "0 < den \<Longrightarrow> round_half_even (k * den) den = k"
  by (simp add: round_half_even_def)

lemma floor_log2_lower:
  assumes "0 < a" "0 < b"
  shows "b * 2 ^ nat (floor_log2 a b) \<le> a * 2 ^ nat (- floor_log2 a b)"
proof -
  define la where "la = bitlen a"
  define lb where "lb = bitlen b"
  have a: "2 ^ nat (la - 1) \<le> a" using bitlen_bounds[OF assms(1)] by (simp add: la_def)
  have b: "b < 2 ^ nat lb" using bitlen_bounds[OF assms(2)] by (simp add: lb_def)
  have la1: "1 \<le> la" using assms(1) bitlen_eq_zero_iff[of a] bitlen_nonneg[of a]
    unfolding la_def by linarith
  have lb1: "1 \<le> lb" using assms(2) bitlen_eq_zero_iff[of b] bitlen_nonneg[of b]
    unfolding lb_def by linarith
  show ?thesis
  proof (cases "b * 2 ^ nat (la - lb) \<le> a * 2 ^ nat (- (la - lb))")
    case True
    then show ?thesis by (simp add: floor_log2_def la_def lb_def)
  next
    case False
    then have e: "floor_log2 a b = la - lb - 1" by (simp add: floor_log2_def la_def lb_def)
    show ?thesis
    proof (cases "lb \<le> la - 1")
      case True
      have "b * 2 ^ nat (la - lb - 1) \<le> 2 ^ nat lb * 2 ^ nat (la - lb - 1)"
        using b by simp
      also have "\<dots> = 2 ^ (nat lb + nat (la - lb - 1))" by (simp add: power_add)
      also have "nat lb + nat (la - lb - 1) = nat (la - 1)" using True lb1 by simp
      finally have "b * 2 ^ nat (la - lb - 1) \<le> a" using a by simp
      moreover have "nat (- (la - lb - 1)) = 0" using True by simp
      ultimately show ?thesis by (simp add: e)
    next
      case False
      then have n0: "nat (la - lb - 1) = 0" by simp
      have "(2::int) ^ nat lb = 2 ^ (nat (la - 1) + nat (- (la - lb - 1)))"
        using False la1 by (intro arg_cong[where f="\<lambda>n. 2 ^ n"]) simp
      also have "\<dots> = 2 ^ nat (la - 1) * 2 ^ nat (- (la - lb - 1))" by (simp add: power_add)
      also have "\<dots> \<le> a * 2 ^ nat (- (la - lb - 1))" using a by simp
      finally show ?thesis using b n0 by (simp add: e)
    qed
  qed
qed


lemma truediv_ceiling:
  assumes a: "0 \<le> a" "a < 2 ^ 53" and b: "0 < b" "b < 2 ^ 1075"
  shows "\<exists>y. int_truediv a b = Inr y \<and> \<lceil>y\<rceil> = (a + b - 1) div b"
proof -
  show ?thesis
  proof (cases "a = 0")
    case True
    then show ?thesis using b by (simp add: int_truediv_def)
  next
    case False
    then have apos: "0 < a" using a by simp
    define e where "e = floor_log2 a b"
    define p where "p = max (e - 52) (- 1074)"
    define s :: int where "s = 2 ^ nat (- p)"
    define m where "m = round_half_even (a * s) b"
    define k where "k = (a + b - 1) div b"
    have low: "b * 2 ^ nat e \<le> a * 2 ^ nat (- e)"
      unfolding e_def by (rule floor_log2_lower[OF apos b(1)])
    have e52: "e \<le> 52"
    proof (rule ccontr)
      assume "\<not> e \<le> 52"
      then have e53: "53 \<le> nat e" "nat (- e) = 0" by simp_all
      have "(2::int) ^ 53 \<le> 2 ^ nat e" using e53(1) by (intro power_increasing) simp_all
      also have "\<dots> \<le> b * 2 ^ nat e" using b(1) by simp
      also have "\<dots> \<le> a" using low e53(2) by simp
      finally show False using a(2) by simp
    qed
    then have p0: "p \<le> 0" "nat p = 0" by (simp_all add: p_def)
    have spos: "0 < s" by (simp add: s_def)
    have s2: "b < 2 * s"
    proof (cases "e - 52 \<ge> - 1074")
      case True
      then have pe: "- p = 52 - e" by (simp add: p_def)
      show ?thesis
      proof (cases "0 \<le> e")
        case True
        then have n: "nat (- e) = 0" "nat (52 - e) + nat e = 52" using e52 by simp_all
        have "b * 2 ^ nat e \<le> a" using low n(1) by simp
        also have "a < 2 * 2 ^ 52" using a(2) by simp
        also have "(2::int) * 2 ^ 52 = 2 * 2 ^ nat (52 - e) * 2 ^ nat e"
        proof -
          have "(2::int) ^ 52 = 2 ^ (nat (52 - e) + nat e)" by (simp only: n(2))
          then show ?thesis by (simp only: power_add mult.assoc)
        qed
        finally have "b * 2 ^ nat e < (2 * 2 ^ nat (52 - e)) * 2 ^ nat e" by simp
        then have "b < 2 * 2 ^ nat (52 - e)" by (simp only: mult_less_cancel_right_pos zero_less_power zero_less_numeral)
        then show ?thesis by (simp add: s_def pe)
      next
        case False
        then have n: "nat e = 0" "nat (52 - e) = 52 + nat (- e)" by simp_all
        have "b \<le> a * 2 ^ nat (- e)" using low n(1) by simp
        also have "\<dots> < 2 ^ 53 * 2 ^ nat (- e)" using a(2) by simp
        also have "\<dots> = 2 * 2 ^ nat (52 - e)" by (simp add: n(2) power_add)
        finally show ?thesis by (simp add: s_def pe)
      qed
    next
      case False
      then have "- p = 1074" by (simp add: p_def)
      then have "s = 2 ^ 1074" by (simp add: s_def)
      then show ?thesis using b(2) by simp
    qed
    have rb: "2 * \<bar>m * b - a * s\<bar> \<le> b"
      unfolding m_def by (rule round_half_even_bounds[OF b(1)])
    have rb1: "2 * (m * b) \<le> 2 * (a * s) + b" and rb2: "2 * (a * s) \<le> 2 * (m * b) + b"
    proof -
      define u where "u = m * b"
      define v where "v = a * s"
      have "2 * \<bar>u - v\<bar> \<le> b" using rb by (simp add: u_def v_def)
      then have "2 * u \<le> 2 * v + b \<and> 2 * v \<le> 2 * u + b" by arith
      then show "2 * (m * b) \<le> 2 * (a * s) + b" "2 * (a * s) \<le> 2 * (m * b) + b"
        by (simp_all add: u_def v_def)
    qed
    have kb: "(k - 1) * b < a" "a \<le> k * b"
    proof -
      have "a + b - 1 = k * b + (a + b - 1) mod b" by (simp add: k_def)
      moreover have "0 \<le> (a + b - 1) mod b" "(a + b - 1) mod b < b" using b(1) by simp_all
      ultimately show "(k - 1) * b < a" "a \<le> k * b" by (simp_all add: algebra_simps)
    qed
    have up: "m \<le> k * s"
    proof (cases "a = k * b")
      case True
      then have "m = k * s" unfolding m_def
        using round_half_even_exact[OF b(1), of "k * s"] by (simp add: mult_ac)
      then show ?thesis by simp
    next
      case False
      then have "a + 1 \<le> k * b" using kb(2) by simp
      then have "(a + 1) * s \<le> k * b * s" using spos by (intro mult_right_mono) simp_all
      then have "2 * (a * s) + 2 * s \<le> 2 * (k * s * b)" by (simp add: algebra_simps)
      moreover note rb1
      ultimately have "2 * (m * b) < 2 * (k * s * b)" using s2 by linarith
      then have "m * b < (k * s) * b" by simp
      then have "m < k * s" using b(1) by (simp only: mult_less_cancel_right_pos)
      then show ?thesis by simp
    qed
    have lo: "(k - 1) * s < m"
    proof -
      have "(k - 1) * b + 1 \<le> a" using kb(1) by simp
      then have "((k - 1) * b + 1) * s \<le> a * s" using spos by (intro mult_right_mono) simp_all
      then have "2 * ((k - 1) * s * b) + 2 * s \<le> 2 * (a * s)" by (simp add: algebra_simps)
      moreover note rb2
      ultimately have "2 * ((k - 1) * s * b) < 2 * (m * b)" using s2 by linarith
      then have "((k - 1) * s) * b < m * b" by simp
      then show ?thesis using b(1) by (simp only: mult_less_cancel_right_pos)
    qed
    define y :: rat where "y = of_int m / of_int s"
    have srat: "(0::rat) < of_int s" using spos by simp
    have c1: "y \<le> of_int k"
    proof -
      have "(of_int m :: rat) \<le> of_int (k * s)" using up by (simp only: of_int_le_iff)
      then show ?thesis unfolding y_def using srat by (simp add: pos_divide_le_eq)
    qed
    have c2: "of_int k - 1 < y"
    proof -
      have "(of_int ((k - 1) * s) :: rat) < of_int m" using lo by (simp only: of_int_less_iff)
      then show ?thesis unfolding y_def using srat by (simp add: pos_less_divide_eq)
    qed
    have ceil: "\<lceil>y\<rceil> = k" using c1 c2 by (intro ceiling_unique) simp_all
    have "k \<le> a"
    proof (cases "0 \<le> k - 1")
      case True
      have "1 \<le> b" using b(1) by simp
      then have "(k - 1) * 1 \<le> (k - 1) * b" using True by (rule mult_left_mono)
      then show ?thesis using kb(1) by simp
    next
      case False
      then show ?thesis using apos by simp
    qed
    then have "y < 2 ^ 1024" using c1 a(2)
    proof -
      have "y \<le> of_int a" using c1 \<open>k \<le> a\<close> by (meson of_int_le_iff order_trans)
      also have "(of_int a :: rat) < of_int (2 ^ 53)" using a(2) by (simp only: of_int_less_iff)
      also have "(of_int (2 ^ 53) :: rat) \<le> 2 ^ 1024" by simp
      finally show ?thesis .
    qed
    then have nov: "\<not> 2 ^ 1024 \<le> y" by simp
    have abs: "\<bar>a\<bar> = a" "\<bar>b\<bar> = b" using apos b(1) by simp_all
    have sg: "(a < 0) = (b < 0)" using apos b(1) by simp
    have "int_truediv a b = Inr y"
      unfolding int_truediv_def Let_def abs e_def[symmetric] p_def[symmetric]
      using False b(1) sg nov
      by (simp add: p0 y_def m_def s_def)
    with ceil show ?thesis by (simp add: k_def)
  qed
qed

lemma ceiling_quotient:
  fixes a b :: int
  assumes "0 < b"
  shows "\<lceil>(of_int a :: rat) / of_int b\<rceil> = (a + b - 1) div b"
proof -
  have "\<lceil>(of_int a :: rat) / of_int b\<rceil> = - ((- a) div b)"
    by (simp add: ceiling_divide_eq_div)
  also have "\<dots> = (a + b - 1) div b" using assms by (rule ceil_div_int)
  finally show ?thesis .
qed

lemma qsize_total: "\<exists>depth. qsize self broker = Inr depth \<and> 0 \<le> depth"
  by (auto simp: qsize_def SimpleQueue_qsize_def split: option.splits)

lemma except_log_returns: "fst (except_log event_type_v outcome) = Inr ()"
  by (cases outcome) (auto simp: except_log_def split: sum.splits)

lemma except_log_error:
  "except_log event_type_v (Inl e, b) =
     (Inr (), [(if is_ValueError e \<or> is_ObservabilityError e then INFO else WARN, event_type_v)], b)"
  by (simp add: except_log_def)


lemma example_base_length0:
  "length (json_dumps (api_call_payload example_request_payload example_response_payload
                         JNull 0 [])) = 398"
  by code_simp

lemma example_api_call_try:
  "api_call_try example_settings id example_request example_response [] example_faulty_broker =
     (Inl (OtherException (py ''RuntimeError'')), example_faulty_broker)"
proof -
  have 1: "request_payload example_request = Inr example_request_payload"
    by (simp add: example_request_def)
  have 2: "response_payload example_response = Inr example_response_payload"
    by (simp add: example_response_def)
  have 3: "app example_request = None" by (simp add: example_request_def)
  have g: "generate_api_call_payload example_request example_response []
             (OBSERVABILITY_MAX_PAYLOAD_SIZE example_settings) =
           Inr (json_dumps (api_call_payload example_request_payload example_response_payload
                              JNull 0 []))"
    unfolding generate_api_call_payload_def 1 2 3 bind_def Let_def
    by (simp add: example_base_length0 example_settings_def serialize_gql_operation_results_def
        bind_def del: json_dumps.simps)
  have m: "OBSERVABILITY_API_CALLS \<in> set OBSERVABILITY_EVENTS"
    by (simp add: OBSERVABILITY_EVENTS_def)
  show ?thesis
    unfolding api_call_try_def g
    by (simp add: m observability_buffer_put_event_def observability_connection_def put_event_def
        qsize_def SimpleQueue_qsize_def SimpleQueue_put_def ObservabilityBuffer_init_def
        example_faulty_broker_def example_settings_def del: json_dumps.simps)
qed


text \<open>
  C7. When the depth of the queue is at least \<open>max_length\<close>, \<open>put_event\<close> raises
  \<open>FullObservabilityEventsBuffer\<close> with the buffer's event type and leaves the broker,
  so the queue, as it was; and the error passes \<open>observability_connection\<close> unchanged.
\<close>

theorem put_event_full_rejected:
  "(qsize self broker = Inr depth \<and> max_length self \<le> depth \<longrightarrow>
      put_event self json_payload broker =
        (Inl (FullObservabilityEventsBuffer (event_type self)), broker)) \<and>
   (event_type_v \<in> set OBSERVABILITY_EVENTS \<and>
    qsize (ObservabilityBuffer_init make_key event_type_v (OBSERVABILITY_BUFFER_BATCH settings)
             (OBSERVABILITY_BUFFER_SIZE_LIMIT settings)) broker = Inr depth \<and>
    max 0 (OBSERVABILITY_BUFFER_SIZE_LIMIT settings) \<le> depth \<longrightarrow>
      observability_buffer_put_event settings make_key event_type_v json_payload broker =
        (Inl (FullObservabilityEventsBuffer event_type_v), broker))"
  by (auto simp: put_event_def observability_buffer_put_event_def observability_connection_def
      ObservabilityBuffer_init_def)

theorem put_event_full_rejected_witness:
  "qsize (ObservabilityBuffer_init id OBSERVABILITY_API_CALLS 10 2) example_broker = Inr 2 \<and>
   put_event (ObservabilityBuffer_init id OBSERVABILITY_API_CALLS 10 2) (py ''{}'') example_broker =
     (Inl (FullObservabilityEventsBuffer OBSERVABILITY_API_CALLS), example_broker)"
proof -
  let ?buf = "ObservabilityBuffer_init id OBSERVABILITY_API_CALLS 10 2"
  have q: "qsize ?buf example_broker = Inr 2"
    by (simp add: qsize_def SimpleQueue_qsize_def ObservabilityBuffer_init_def example_broker_def
        CACHE_KEY_def OBSERVABILITY_API_CALLS_def py_def)
  have m: "max_length ?buf \<le> 2" "event_type ?buf = OBSERVABILITY_API_CALLS"
    by (simp_all add: ObservabilityBuffer_init_def)
  from put_event_full_rejected[of ?buf example_broker 2 "py ''{}''"] q m
  show ?thesis by simp
qed


text \<open>
  C8 (as amended). Whenever the webhook lookup that precedes the \<open>try\<close> block returns,
  both capture entry points return normally, whatever the payload builder and the
  enqueue do; when the body of the \<open>try\<close> block raises \<open>e\<close>, what is left of it is one
  log entry for the event type (info for a \<open>ValueError\<close> or an \<open>ObservabilityError\<close>,
  a warning otherwise).
\<close>

theorem capture_catches_try_block:
  "(webhooks OBSERVABILITY_API_CALLS = Inr found \<longrightarrow>
      fst (observability_api_call settings make_key webhooks api_call broker) = Inr ()) \<and>
   (webhooks OBSERVABILITY_EVENT_DELIVERY_ATTEMPTS = Inr found \<longrightarrow>
      fst (observability_event_delivery_attempt settings make_key webhooks event_type_v
             attempt broker) = Inr ()) \<and>
   (OBSERVABILITY_ACTIVE settings \<and> request api_call = Some req \<and> response api_call = Some resp \<and>
    (OBSERVABILITY_REPORT_ALL_API_CALLS settings \<or> app req = None) \<and>
    webhooks OBSERVABILITY_API_CALLS = Inr True \<and>
    api_call_try settings make_key req resp (queries api_call) broker = (Inl e, b)
    \<longrightarrow> observability_api_call settings make_key webhooks api_call broker =
          (Inr (), [(if is_ValueError e \<or> is_ObservabilityError e then INFO else WARN,
                     OBSERVABILITY_API_CALLS)], b)) \<and>
   (event_type_v \<notin> set OBSERVABILITY_EVENTS \<and>
    webhooks OBSERVABILITY_EVENT_DELIVERY_ATTEMPTS = Inr True \<and>
    delivery_attempt_try settings make_key event_type_v attempt broker = (Inl e, b)
    \<longrightarrow> observability_event_delivery_attempt settings make_key webhooks event_type_v
          attempt broker =
          (Inr (), [(if is_ValueError e \<or> is_ObservabilityError e then INFO else WARN,
                     event_type_v)], b))"
proof (intro conjI impI)
  assume "webhooks OBSERVABILITY_API_CALLS = Inr found"
  then show "fst (observability_api_call settings make_key webhooks api_call broker) = Inr ()"
    by (simp add: observability_api_call_def except_log_returns split: option.splits)
next
  assume "webhooks OBSERVABILITY_EVENT_DELIVERY_ATTEMPTS = Inr found"
  then show "fst (observability_event_delivery_attempt settings make_key webhooks event_type_v
          attempt broker) = Inr ()"
    by (simp add: observability_event_delivery_attempt_def except_log_returns)
next
  assume "OBSERVABILITY_ACTIVE settings \<and> request api_call = Some req \<and>
    response api_call = Some resp \<and>
    (OBSERVABILITY_REPORT_ALL_API_CALLS settings \<or> app req = None) \<and>
    webhooks OBSERVABILITY_API_CALLS = Inr True \<and>
    api_call_try settings make_key req resp (queries api_call) broker = (Inl e, b)"
  then show "observability_api_call settings make_key webhooks api_call broker =
          (Inr (), [(if is_ValueError e \<or> is_ObservabilityError e then INFO else WARN,
                     OBSERVABILITY_API_CALLS)], b)"
    by (auto simp: observability_api_call_def except_log_error)
next
  assume "event_type_v \<notin> set OBSERVABILITY_EVENTS \<and>
    webhooks OBSERVABILITY_EVENT_DELIVERY_ATTEMPTS = Inr True \<and>
    delivery_attempt_try settings make_key event_type_v attempt broker = (Inl e, b)"
  then show "observability_event_delivery_attempt settings make_key webhooks event_type_v
          attempt broker =
          (Inr (), [(if is_ValueError e \<or> is_ObservabilityError e then INFO else WARN,
                     event_type_v)], b)"
    by (simp add: observability_event_delivery_attempt_def except_log_error)
qed

theorem capture_catches_try_block_witness:
  "observability_api_call example_settings id example_webhooks example_api_call
     example_faulty_broker =
     (Inr (), [(WARN, OBSERVABILITY_API_CALLS)], example_faulty_broker)"
proof -
  have h: "OBSERVABILITY_ACTIVE example_settings \<and>
      request example_api_call = Some example_request \<and>
      response example_api_call = Some example_response \<and>
      (OBSERVABILITY_REPORT_ALL_API_CALLS example_settings \<or> app example_request = None) \<and>
      example_webhooks OBSERVABILITY_API_CALLS = Inr True \<and>
      api_call_try example_settings id example_request example_response (queries example_api_call)
        example_faulty_broker = (Inl (OtherException (py ''RuntimeError'')), example_faulty_broker)"
    using example_api_call_try
    by (simp add: example_settings_def example_api_call_def example_request_def
        example_webhooks_def)
  from capture_catches_try_block[of example_webhooks _ example_settings id example_api_call
      example_faulty_broker _ _ example_request example_response
      "OtherException (py ''RuntimeError'')" example_faulty_broker] h
  show ?thesis by simp
qed

text \<open>
  C8 (as stated, refuted). When the query of the webhook lookup raises, the exception
  leaves \<open>observability_api_call\<close> and \<open>observability_event_delivery_attempt\<close>: the
  lookup stands before the \<open>try\<close> block.
\<close>

theorem capture_propagates_lookup_error:
  "observability_api_call example_settings id example_failing_webhooks example_api_call
     example_broker =
     (Inl (OtherException (py ''OperationalError'')), [], example_broker) \<and>
   observability_event_delivery_attempt example_settings id example_failing_webhooks
     (py ''order_created'') example_attempt example_broker =
     (Inl (OtherException (py ''OperationalError'')), [], example_broker)"
proof
  show "observability_api_call example_settings id example_failing_webhooks example_api_call
     example_broker =
     (Inl (OtherException (py ''OperationalError'')), [], example_broker)"
    by (simp add: observability_api_call_def example_settings_def example_api_call_def
        example_request_def example_failing_webhooks_def)
  have "py ''order_created'' \<notin> set OBSERVABILITY_EVENTS"
    by (simp add: OBSERVABILITY_EVENTS_def OBSERVABILITY_API_CALLS_def
        OBSERVABILITY_EVENT_DELIVERY_ATTEMPTS_def py_def)
  then show "observability_event_delivery_attempt example_settings id example_failing_webhooks
     (py ''order_created'') example_attempt example_broker =
     (Inl (OtherException (py ''OperationalError'')), [], example_broker)"
    by (simp add: observability_event_delivery_attempt_def example_failing_webhooks_def)
qed

text \<open>
  C9 (as amended). \<open>qsize\<close> is 0 for a queue that does not exist and the number of
  messages otherwise. For a batch size from 1 to below \<open>2^1075\<close> and a depth below
  \<open>2^53\<close>, \<open>size_in_batches\<close> returns the ceiling of the depth divided by the batch size,
  which is \<open>(depth + batch - 1) div batch\<close>; for 25 messages and batches of 10 it returns
  3.
\<close>

theorem size_in_batches_is_ceiling:
  "(queues broker (queue_name self) = None \<longrightarrow> qsize self broker = Inr 0) \<and>
   (\<forall>msgs. queues broker (queue_name self) = Some msgs \<longrightarrow>
      qsize self broker = Inr (int (length msgs))) \<and>
   (0 < batch self \<and> batch self < 2 ^ 1075 \<longrightarrow>
      (\<exists>depth. qsize self broker = Inr depth \<and>
         (depth < 2 ^ 53 \<longrightarrow>
            size_in_batches self broker =
              Inr \<lceil>(of_int depth :: rat) / of_int (batch self)\<rceil> \<and>
            \<lceil>(of_int depth :: rat) / of_int (batch self)\<rceil> =
              (depth + batch self - 1) div batch self))) \<and>
   (queues broker (queue_name self) = Some msgs25 \<and> length msgs25 = 25 \<and> batch self = 10 \<longrightarrow>
      size_in_batches self broker = Inr 3)"
proof (intro conjI impI allI)
  assume "queues broker (queue_name self) = None"
  then show "qsize self broker = Inr 0" by (simp add: qsize_def SimpleQueue_qsize_def)
next
  fix msgs assume "queues broker (queue_name self) = Some msgs"
  then show "qsize self broker = Inr (int (length msgs))"
    by (simp add: qsize_def SimpleQueue_qsize_def)
next
  assume b: "0 < batch self \<and> batch self < 2 ^ 1075"
  obtain depth where d: "qsize self broker = Inr depth" and d0: "0 \<le> depth"
    using qsize_total by blast
  have "size_in_batches self broker = Inr \<lceil>(of_int depth :: rat) / of_int (batch self)\<rceil> \<and>
        \<lceil>(of_int depth :: rat) / of_int (batch self)\<rceil> = (depth + batch self - 1) div batch self"
    if lt: "depth < 2 ^ 53"
  proof -
    from truediv_ceiling[OF d0 lt] b obtain y where
      y: "int_truediv depth (batch self) = Inr y"
      and c: "\<lceil>y\<rceil> = (depth + batch self - 1) div batch self"
      by blast
    have q: "\<lceil>(of_int depth :: rat) / of_int (batch self)\<rceil> = (depth + batch self - 1) div batch self"
      using b by (intro ceiling_quotient) simp
    have "size_in_batches self broker = Inr \<lceil>y\<rceil>"
      by (simp add: size_in_batches_def bind_def d y)
    with c q show ?thesis by simp
  qed
  with d show "\<exists>depth. qsize self broker = Inr depth \<and>
         (depth < 2 ^ 53 \<longrightarrow>
            size_in_batches self broker =
              Inr \<lceil>(of_int depth :: rat) / of_int (batch self)\<rceil> \<and>
            \<lceil>(of_int depth :: rat) / of_int (batch self)\<rceil> =
              (depth + batch self - 1) div batch self)"
    by blast
next
  assume h: "queues broker (queue_name self) = Some msgs25 \<and> length msgs25 = 25 \<and> batch self = 10"
  then have d: "qsize self broker = Inr 25" by (simp add: qsize_def SimpleQueue_qsize_def)
  have "(0::int) \<le> 25" "(25::int) < 2 ^ 53" "(0::int) < 10" "(10::int) < 2 ^ 1075" by simp_all
  from truediv_ceiling[OF this] obtain y where
    "int_truediv 25 10 = Inr y" "\<lceil>y\<rceil> = (25 + 10 - 1) div 10"
    by blast
  then show "size_in_batches self broker = Inr 3"
    using h by (simp add: size_in_batches_def bind_def d)
qed

theorem size_in_batches_is_ceiling_witness:
  "size_in_batches (ObservabilityBuffer_init id OBSERVABILITY_API_CALLS 10 100) example_broker_25
     = Inr 3 \<and>
   qsize (ObservabilityBuffer_init id OBSERVABILITY_API_CALLS 10 100) example_faulty_broker = Inr 0"
proof -
  let ?buf = "ObservabilityBuffer_init id OBSERVABILITY_API_CALLS 10 100"
  have a: "queues example_broker_25 (queue_name ?buf) = Some (replicate 25 (py ''{}'')) \<and>
      length (replicate 25 (py ''{}'')) = 25 \<and> batch ?buf = 10"
    by (simp add: example_broker_25_def ObservabilityBuffer_init_def)
  have b: "queues example_faulty_broker (queue_name ?buf) = None"
    by (simp add: example_faulty_broker_def)
  from size_in_batches_is_ceiling[of example_broker_25 ?buf "replicate 25 (py ''{}'')"] a
  have 1: "size_in_batches ?buf example_broker_25 = Inr 3" by blast
  from size_in_batches_is_ceiling[of example_faulty_broker ?buf] b
  have 2: "qsize ?buf example_faulty_broker = Inr 0" by blast
  from 1 2 show ?thesis by blast
qed

lemma example_underflow: "int_truediv 1 (2 ^ 1075) = Inr 0"
proof -
  have bl: "bitlen (2 ^ 1075) = 1076"
    using bitlen_pow2[of 1 1075] by (simp add: compute_bitlen[of 1])
  have b1: "bitlen 1 = 1" by (simp add: compute_bitlen)
  have fl: "floor_log2 1 (2 ^ 1075) = - 1075"
    unfolding floor_log2_def Let_def by (simp only: abs_one bl b1) simp
  have rh: "round_half_even (1 * 2 ^ 1074) (2 ^ 1075 * 1) = 0"
    by (simp add: round_half_even_def)
  have p: "max (- 1075 - 52) (- 1074) = (- 1074 :: int)" by simp
  have ab: "\<bar>1::int\<bar> = 1" "\<bar>2 ^ 1075 :: int\<bar> = 2 ^ 1075" by simp_all
  have n: "nat (- (- 1074)) = 1074" "nat (- 1074) = 0" by simp_all
  show ?thesis
    unfolding int_truediv_def Let_def ab fl p n
    using rh by (simp del: power_numeral)
qed

text \<open>
  C9 (as stated, refuted). A buffer built with the batch size 0, which \<open>__init__\<close>
  admits, has no size in batches: the division raises \<open>ZeroDivisionError\<close>. For a queue
  of \<open>2^53 + 1\<close> messages and batches of one, the double of the quotient is \<open>2^53\<close>, one
  below the ceiling of the quotient. And for a queue of one message and the batch size
  \<open>2^1075\<close>, the quotient underflows to the double zero, where its ceiling is one.
\<close>

theorem size_in_batches_not_always_ceiling:
  "size_in_batches (ObservabilityBuffer_init id OBSERVABILITY_API_CALLS 0 100) example_broker_25
     = Inl ZeroDivisionError \<and>
   qsize (ObservabilityBuffer_init id OBSERVABILITY_API_CALLS 1 100) example_broker_huge
     = Inr (2 ^ 53 + 1) \<and>
   size_in_batches (ObservabilityBuffer_init id OBSERVABILITY_API_CALLS 1 100) example_broker_huge
     = Inr (2 ^ 53) \<and>
   qsize (ObservabilityBuffer_init id OBSERVABILITY_API_CALLS (2 ^ 1075) 100) example_broker_one
     = Inr 1 \<and>
   size_in_batches (ObservabilityBuffer_init id OBSERVABILITY_API_CALLS (2 ^ 1075) 100)
     example_broker_one = Inr 0"
proof (intro conjI)
  show "size_in_batches (ObservabilityBuffer_init id OBSERVABILITY_API_CALLS 0 100)
      example_broker_25 = Inl ZeroDivisionError"
    by (simp add: size_in_batches_def bind_def qsize_def SimpleQueue_qsize_def
        example_broker_25_def ObservabilityBuffer_init_def int_truediv_def)
  show q: "qsize (ObservabilityBuffer_init id OBSERVABILITY_API_CALLS 1 100) example_broker_huge
      = Inr (2 ^ 53 + 1)"
    by (simp add: qsize_def SimpleQueue_qsize_def example_broker_huge_def
        ObservabilityBuffer_init_def)
  have bl: "bitlen 9007199254740993 = 54" "bitlen 1 = 1"
    by (simp_all add: compute_bitlen)
  have t: "int_truediv (2 ^ 53 + 1) 1 = Inr (2 ^ 53)"
    by (simp add: int_truediv_def floor_log2_def round_half_even_def bl)
  have "batch (ObservabilityBuffer_init id OBSERVABILITY_API_CALLS 1 100) = 1"
    by (simp add: ObservabilityBuffer_init_def)
  then show "size_in_batches (ObservabilityBuffer_init id OBSERVABILITY_API_CALLS 1 100)
      example_broker_huge = Inr (2 ^ 53)"
    unfolding size_in_batches_def q bind_def using t by simp
  show q1: "qsize (ObservabilityBuffer_init id OBSERVABILITY_API_CALLS (2 ^ 1075) 100)
      example_broker_one = Inr 1"
    by (simp add: qsize_def SimpleQueue_qsize_def example_broker_one_def
        ObservabilityBuffer_init_def)
  have b: "batch (ObservabilityBuffer_init id OBSERVABILITY_API_CALLS (2 ^ 1075) 100) = 2 ^ 1075"
    by (simp add: ObservabilityBuffer_init_def)
  show "size_in_batches (ObservabilityBuffer_init id OBSERVABILITY_API_CALLS (2 ^ 1075) 100)
     example_broker_one = Inr 0"
    unfolding size_in_batches_def q1 b bind_def
    by (simp only: sum.case example_underflow) simp
qed

end
